theory Spec2Isabelle
  imports Main
begin

section \<open>Namespace contexts (namespace.go)\<close>

text \<open>
  A context node holds the namespace of the element being built, the namespace-to-prefix
  map of that element and a pointer to the parent node. Nodes are shared through
  pointers and mutated in place, so they live in an explicit store: a list of nodes,
  an address being an index into it. Allocation appends a node. A nil parent pointer
  is \<open>None\<close>.
\<close>

definition XML_NS :: string where
  "XML_NS = ''http://www.w3.org/XML/1998/namespace''"

definition XMLNS_NS :: string where
  "XMLNS_NS = ''http://www.w3.org/2000/xmlns/''"

record nscontext =
  xmlns :: string
  pfxmap :: "string \<rightharpoonup> string"
  parent :: "nat option"

type_synonym heap = "nscontext list"

text \<open>
  \<open>Get\<close> follows parent pointers until a node is its own parent (or has none). On a
  store with a cycle of parent pointers that is not a self loop the Go function does not
  return; neither does the model (\<open>None\<close>). An address outside the store denotes no
  node and gives no result either.
\<close>

partial_function (option) Get :: "heap \<Rightarrow> nat \<Rightarrow> string \<Rightarrow> (string \<times> bool) option" where
  "Get h n k =
     (if n < length h then
        (case pfxmap (h ! n) k of
           Some v \<Rightarrow> Some (v, True)
         | None \<Rightarrow>
             (case parent (h ! n) of
                None \<Rightarrow> Some ([], False)
              | Some q \<Rightarrow> if q \<noteq> n then Get h q k else Some ([], False)))
      else None)"

definition child :: "heap \<Rightarrow> nat \<Rightarrow> heap \<times> nat" where
  "child h n = (h @ [\<lparr>xmlns = [], pfxmap = Map.empty, parent = Some n\<rparr>], length h)"

definition rootNs2Pfx :: "heap \<Rightarrow> heap \<times> nat" where
  "rootNs2Pfx h =
     (h @ [\<lparr>xmlns = [],
            pfxmap = [XML_NS \<mapsto> ''xml'', XMLNS_NS \<mapsto> ''xmlns''],
            parent = Some (length h)\<rparr>], length h)"

text \<open>The two assignments the marshaller makes through a context pointer.\<close>

definition set_xmlns :: "nat \<Rightarrow> string \<Rightarrow> heap \<Rightarrow> heap" where
  "set_xmlns n u h = h[n := (h ! n)\<lparr>xmlns := u\<rparr>]"

definition bind :: "nat \<Rightarrow> string \<Rightarrow> string \<Rightarrow> heap \<Rightarrow> heap" where
  "bind n u pfx h = h[n := (h ! n)\<lparr>pfxmap := (pfxmap (h ! n))(u \<mapsto> pfx)\<rparr>]"

section \<open>Values, types and field descriptors\<close>

text \<open>
  The marshaller inspects its input through reflection. A reflected value is modelled by
  a datatype with one constructor per group of kinds, so that the kind of a value and
  its payload cannot disagree. Every constructor but \<open>Nothing\<close>, \<open>VName\<close> and
  \<open>VTime\<close> carries the name of the value's type (empty for an unnamed type).
  \<^item> \<open>Nothing\<close> is the zero Value (\<open>IsValid\<close> is false): what reflecting a nil
    interface gives.
  \<^item> \<open>VFloat\<close>: floating point is not modelled; a float is represented by whether it
    equals 0 and by its shortest decimal rendering (format g, precision -1).
  \<^item> \<open>VPtr\<close>, \<open>VInterface\<close>: \<open>None\<close> is nil.
  \<^item> \<open>VBytes\<close> is a slice or array whose element type is byte; \<open>VSeq\<close> is any
    other slice or array and carries the kind of its element type.
  \<^item> \<open>VMap\<close> carries the number of entries.
  \<^item> \<open>VStruct\<close> carries the values of the fields, by field index.
  \<^item> \<open>VName\<close> is a value of type Name (fields Space and Local); \<open>VTime\<close> a
    value of type time.Time, represented by its RFC 3339 rendering with nanoseconds.
  \<^item> \<open>VOther\<close>: channels, functions, complex numbers, unsafe pointers.
  Values are finite trees: a cyclic structure of pointers, on which the Go code recurses
  without end, is outside the model.
\<close>

datatype intKind = KInt | KInt8 | KInt16 | KInt32 | KInt64

datatype uintKind = KUint | KUint8 | KUint16 | KUint32 | KUint64 | KUintptr

datatype floatKind = KFloat32 | KFloat64

datatype otherKind = Chan | Func | Complex64 | Complex128 | UnsafePointer

datatype kind =
    Invalid | Bool | IntK intKind | UintK uintKind | FloatK floatKind | String
  | Ptr | Interface | Slice | Array | Map | Struct | OtherK otherKind

datatype seqKind = SliceK | ArrayK

datatype rvalue =
    Nothing
  | VBool string bool
  | VInt intKind string int
  | VUint uintKind string nat
  | VFloat floatKind string bool string
  | VString string string
  | VPtr string "rvalue option"
  | VInterface string "rvalue option"
  | VBytes seqKind string string
  | VSeq seqKind string kind "rvalue list"
  | VMap string nat
  | VStruct string "rvalue list"
  | VName string string
  | VTime string
  | VOther otherKind string

datatype rtype = RType (Name: string) (TKind: kind)

fun seqk :: "seqKind \<Rightarrow> kind" where
  "seqk SliceK = Slice"
| "seqk ArrayK = Array"

fun Kind :: "rvalue \<Rightarrow> kind" where
  "Kind Nothing = Invalid"
| "Kind (VBool _ _) = Bool"
| "Kind (VInt k _ _) = IntK k"
| "Kind (VUint k _ _) = UintK k"
| "Kind (VFloat k _ _ _) = FloatK k"
| "Kind (VString _ _) = String"
| "Kind (VPtr _ _) = Ptr"
| "Kind (VInterface _ _) = Interface"
| "Kind (VBytes sk _ _) = seqk sk"
| "Kind (VSeq sk _ _ _) = seqk sk"
| "Kind (VMap _ _) = Map"
| "Kind (VStruct _ _) = Struct"
| "Kind (VName _ _) = Struct"
| "Kind (VTime _) = Struct"
| "Kind (VOther k _) = OtherK k"

fun TypeName :: "rvalue \<Rightarrow> string" where
  "TypeName Nothing = []"
| "TypeName (VBool t _) = t"
| "TypeName (VInt _ t _) = t"
| "TypeName (VUint _ t _) = t"
| "TypeName (VFloat _ t _ _) = t"
| "TypeName (VString t _) = t"
| "TypeName (VPtr t _) = t"
| "TypeName (VInterface t _) = t"
| "TypeName (VBytes _ t _) = t"
| "TypeName (VSeq _ t _ _) = t"
| "TypeName (VMap t _) = t"
| "TypeName (VStruct t _) = t"
| "TypeName (VName _ _) = ''Name''"
| "TypeName (VTime _) = ''Time''"
| "TypeName (VOther _ t) = t"

definition Type :: "rvalue \<Rightarrow> rtype" where
  "Type v = RType (TypeName v) (Kind v)"

definition IsValid :: "rvalue \<Rightarrow> bool" where
  "IsValid v = (v \<noteq> Nothing)"

text \<open>\<open>val.Type() == timeType\<close>\<close>

fun isTime :: "rvalue \<Rightarrow> bool" where
  "isTime (VTime _) = True"
| "isTime _ = False"

fun timeText :: "rvalue \<Rightarrow> string" where
  "timeText (VTime t) = t"
| "timeText _ = []"

text \<open>\<open>typ.Elem().Kind()\<close> of a slice or array type.\<close>

fun ElemKind :: "rvalue \<Rightarrow> kind" where
  "ElemKind (VBytes _ _ _) = UintK KUint8"
| "ElemKind (VSeq _ _ ek _) = ek"
| "ElemKind _ = Invalid"

text \<open>\<open>val.Elem()\<close> of a pointer or interface; \<open>None\<close> when it is nil.\<close>

fun Elem :: "rvalue \<Rightarrow> rvalue option" where
  "Elem (VPtr _ x) = x"
| "Elem (VInterface _ x) = x"
| "Elem _ = None"

fun Elems :: "rvalue \<Rightarrow> rvalue list" where
  "Elems (VSeq _ _ _ vs) = vs"
| "Elems _ = []"

fun Len :: "rvalue \<Rightarrow> nat" where
  "Len (VString _ s) = length s"
| "Len (VBytes _ _ b) = length b"
| "Len (VSeq _ _ _ vs) = length vs"
| "Len (VMap _ n) = n"
| "Len _ = 0"

fun isEmptyValue :: "rvalue \<Rightarrow> bool" where
  "isEmptyValue (VSeq _ _ _ vs) = (length vs = 0)"
| "isEmptyValue (VBytes _ _ b) = (length b = 0)"
| "isEmptyValue (VMap _ n) = (n = 0)"
| "isEmptyValue (VString _ s) = (length s = 0)"
| "isEmptyValue (VBool _ b) = (\<not> b)"
| "isEmptyValue (VInt _ _ i) = (i = 0)"
| "isEmptyValue (VUint _ _ n) = (n = 0)"
| "isEmptyValue (VFloat _ _ z _) = z"
| "isEmptyValue (VInterface _ x) = (x = None)"
| "isEmptyValue (VPtr _ x) = (x = None)"
| "isEmptyValue _ = False"

text \<open>
  Field descriptors and type descriptors come from the type-descriptor subsystem, which
  is not part of the marshaller. The marshaller reads the components below. The flag
  constants are distinct bits in the source; a flag word is modelled as the set of
  flags that are set, \<open>flags & m\<close> as intersection with \<open>m\<close>.
\<close>

datatype fieldFlag = fElement | fAttr | fCharData | fInnerXml | fComment | fAny | fOmitEmpty

definition fMode :: "fieldFlag set" where
  "fMode = {fElement, fAttr, fCharData, fInnerXml, fComment, fAny}"

record fieldInfo =
  fidx :: nat
  fname :: string
  fxmlns :: string
  fprefix :: string
  fflags :: "fieldFlag set"
  fparents :: "string list"

record typeInfo =
  xmlname :: "fieldInfo option"
  tfields :: "fieldInfo list"

datatype error =
    UnsupportedTypeError rtype
  | AttrNeedsPrefix string string
  | BadCommentType rtype
  | CommentDashDash
  | TypeInfoError string
  | Panic

text \<open>
  Modelled from the spec: the accessor \<open>fieldInfo.value\<close> belongs to the
  type-descriptor subsystem, which is not under src/ (the spec treats it as a black box
  that gives each field its descriptor). A descriptor is taken to carry the index of its
  field, and the accessor reads that field of the struct. Reading a field the value does
  not have is a run-time panic.
\<close>

fun Fields :: "rvalue \<Rightarrow> rvalue list option" where
  "Fields (VStruct _ fs) = Some fs"
| "Fields (VName sp lo) = Some [VString ''string'' sp, VString ''string'' lo]"
| "Fields _ = None"

definition fvalue :: "fieldInfo \<Rightarrow> rvalue \<Rightarrow> error + rvalue" where
  "fvalue fi v =
     (case Fields v of
        None \<Rightarrow> Inl Panic
      | Some fs \<Rightarrow> if fidx fi < length fs then Inr (fs ! fidx fi) else Inl Panic)"

text \<open>The type assertion \<open>.(Name)\<close>.\<close>

fun asName :: "rvalue \<Rightarrow> (string \<times> string) option" where
  "asName (VName sp lo) = Some (sp, lo)"
| "asName _ = None"

section \<open>The printer\<close>

text \<open>
  \<open>out\<close> is the sequence of bytes the printer has handed to its buffered writer, in
  order. The underlying writer is taken to accept every write (as the byte buffer of
  \<open>Marshal\<close> does), so the writer's cached error is always nil, and \<open>Flush\<close>
  delivers \<open>out\<close>.
\<close>

record printer =
  out :: string
  indent :: string
  prefix :: string
  depth :: int
  indentedIn :: bool
  putNewline :: bool

definition WriteString :: "string \<Rightarrow> printer \<Rightarrow> printer" where
  "WriteString s p = p\<lparr>out := out p @ s\<rparr>"

definition WriteByte :: "char \<Rightarrow> printer \<Rightarrow> printer" where
  "WriteByte c p = p\<lparr>out := out p @ [c]\<rparr>"

definition cachedWriteError :: "printer \<Rightarrow> error option" where
  "cachedWriteError p = None"

text \<open>
  \<open>Escape\<close> is the external escaping utility: it writes the escaped form of its
  argument. The escaping function itself is a parameter \<open>esc\<close> of the model.
\<close>

definition Escape :: "(string \<Rightarrow> string) \<Rightarrow> string \<Rightarrow> printer \<Rightarrow> printer" where
  "Escape esc s p = WriteString (esc s) p"

definition writeIndent :: "int \<Rightarrow> printer \<Rightarrow> printer" where
  "writeIndent depthDelta p =
     (if length (prefix p) = 0 \<and> length (indent p) = 0 then p
      else
        let p1 = (if depthDelta < 0 then p\<lparr>depth := depth p - 1\<rparr> else p) in
        if depthDelta < 0 \<and> indentedIn p1 then p1\<lparr>indentedIn := False\<rparr>
        else
          let p2 = (if depthDelta < 0 then p1\<lparr>indentedIn := False\<rparr> else p1);
              p3 = (if putNewline p2 then WriteByte (CHR 0x0A) p2 else p2\<lparr>putNewline := True\<rparr>);
              p4 = (if length (prefix p3) > 0 then WriteString (prefix p3) p3 else p3);
              p5 = (if length (indent p4) > 0
                    then ((WriteString (indent p4)) ^^ (nat (depth p4))) p4 else p4)
          in if depthDelta > 0 then p5\<lparr>depth := depth p5 + 1, indentedIn := True\<rparr> else p5)"

subsection \<open>Number formatting (strconv)\<close>

definition digit :: "nat \<Rightarrow> char" where
  "digit d = ''0123456789'' ! d"

fun FormatUint :: "nat \<Rightarrow> string" where
  "FormatUint n = (if n < 10 then [digit n] else FormatUint (n div 10) @ [digit (n mod 10)])"

definition FormatInt :: "int \<Rightarrow> string" where
  "FormatInt i = (if i < 0 then CHR ''-'' # FormatUint (nat (- i)) else FormatUint (nat i))"

definition FormatBool :: "bool \<Rightarrow> string" where
  "FormatBool b = (if b then ''true'' else ''false'')"

section \<open>Scalars, comments and parent elements (marshalSimple, marshalStruct, parentStack)\<close>

text \<open>\<open>v.Interface()\<close>: the dynamic value; an interface gives what it holds.\<close>

fun InterfaceV :: "rvalue \<Rightarrow> rvalue" where
  "InterfaceV (VInterface _ (Some x)) = x"
| "InterfaceV v = v"

text \<open>
  \<open>v.Bytes()\<close> panics (\<open>None\<close>) unless the value is a slice of bytes.
\<close>

fun Bytes :: "rvalue \<Rightarrow> string option" where
  "Bytes (VBytes SliceK _ b) = Some b"
| "Bytes _ = None"

fun marshalSimple :: "(string \<Rightarrow> string) \<Rightarrow> rtype \<Rightarrow> rvalue \<Rightarrow> printer \<Rightarrow> error option \<times> printer" where
  "marshalSimple esc typ (VTime t) p = (None, WriteString t p)"
| "marshalSimple esc typ (VInt _ _ i) p = (cachedWriteError p, WriteString (FormatInt i) p)"
| "marshalSimple esc typ (VUint _ _ n) p = (cachedWriteError p, WriteString (FormatUint n) p)"
| "marshalSimple esc typ (VFloat _ _ _ t) p = (cachedWriteError p, WriteString t p)"
| "marshalSimple esc typ (VString _ s) p = (cachedWriteError p, Escape esc s p)"
| "marshalSimple esc typ (VBool _ b) p = (cachedWriteError p, WriteString (FormatBool b) p)"
| "marshalSimple esc typ (VBytes _ _ b) p = (cachedWriteError p, Escape esc b p)"
| "marshalSimple esc typ (VSeq ArrayK _ _ vs) p =
     (if vs = [] then (cachedWriteError p, Escape esc [] p) else (Some Panic, p))"
| "marshalSimple esc typ (VSeq SliceK _ _ vs) p = (Some Panic, p)"
| "marshalSimple esc typ v p = (Some (UnsupportedTypeError typ), p)"

text \<open>\<open>strings.Index\<close> and \<open>bytes.Index\<close>: the first position of \<open>sep\<close>, or -1.\<close>

fun Index :: "string \<Rightarrow> string \<Rightarrow> int" where
  "Index [] sep = (if sep = [] then 0 else - 1)"
| "Index (c # s) sep =
     (if take (length sep) (c # s) = sep then 0
      else let r = Index s sep in if r < 0 then - 1 else r + 1)"

text \<open>The character-data case of \<open>marshalStruct\<close>.\<close>

fun charData :: "(string \<Rightarrow> string) \<Rightarrow> rvalue \<Rightarrow> printer \<Rightarrow> printer" where
  "charData esc (VInt _ _ i) p = Escape esc (FormatInt i) p"
| "charData esc (VUint _ _ n) p = Escape esc (FormatUint n) p"
| "charData esc (VFloat _ _ _ t) p = Escape esc t p"
| "charData esc (VBool _ b) p = Escape esc (FormatBool b) p"
| "charData esc (VString _ s) p = Escape esc s p"
| "charData esc (VBytes SliceK t b) p = (if t = [] then Escape esc b p else p)"
| "charData esc (VTime t) p = Escape esc t p"
| "charData esc v p = p"

text \<open>
  The comment case of \<open>marshalStruct\<close>: \<open>(Some e, p')\<close> is \<open>return e\<close>,
  \<open>(None, p')\<close> is \<open>continue\<close>. \<open>valtype\<close> is the type of the enclosing struct.
\<close>

definition comment :: "rvalue \<Rightarrow> rtype \<Rightarrow> printer \<Rightarrow> error option \<times> printer" where
  "comment vf valtype p =
     (let k = Kind vf in
      if \<not> (k = String \<or> k = Slice \<and> ElemKind vf = UintK KUint8)
      then (Some (BadCommentType valtype), p)
      else if Len vf = 0 then (None, p)
      else
        let p1 = WriteString ''<!--'' (writeIndent 0 p) in
        case (case vf of VString _ s \<Rightarrow> Some s | _ \<Rightarrow> Bytes vf) of
          None \<Rightarrow> (Some Panic, p1)
        | Some s \<Rightarrow>
            let dashDash = (Index s ''--'' \<ge> 0);
                dashLast = (last s = CHR ''-'');
                p2 = (if \<not> dashDash then WriteString s p1 else p1)
            in if dashDash then (Some CommentDashDash, p2)
               else (None, WriteString ''-->'' (if dashLast then WriteByte (CHR '' '') p2 else p2)))"

text \<open>
  The raw-inner-markup case: the type switch on \<open>vf.Interface()\<close> matches a value
  whose type is exactly the unnamed byte slice type or exactly \<open>string\<close>.
\<close>

definition rawInner :: "rvalue \<Rightarrow> string option" where
  "rawInner vf =
     (case InterfaceV vf of
        VBytes SliceK t b \<Rightarrow> if t = [] then Some b else None
      | VString t s \<Rightarrow> if t = ''string'' then Some s else None
      | _ \<Rightarrow> None)"

text \<open>The parent stack: a pair of the stack and the printer it writes to.\<close>

fun splitLen :: "string list \<Rightarrow> string list \<Rightarrow> nat" where
  "splitLen (x # xs) (y # ys) = (if x \<noteq> y then 0 else Suc (splitLen xs ys))"
| "splitLen _ _ = 0"

definition closeTag :: "printer \<Rightarrow> string \<Rightarrow> printer" where
  "closeTag p s = WriteByte (CHR ''>'') (WriteString s (WriteString ''</'' (writeIndent (- 1) p)))"

definition openTag :: "printer \<Rightarrow> string \<Rightarrow> printer" where
  "openTag p s = WriteByte (CHR ''>'') (WriteString s (WriteByte (CHR ''<'') (writeIndent 1 p)))"

definition trim :: "string list \<Rightarrow> string list \<times> printer \<Rightarrow> string list \<times> printer" where
  "trim parents s =
     (case s of (stack, p) \<Rightarrow>
        let split = splitLen parents stack
        in (take split parents, foldl closeTag p (rev (drop split stack))))"

definition push :: "string list \<Rightarrow> string list \<times> printer \<Rightarrow> string list \<times> printer" where
  "push parents s = (case s of (stack, p) \<Rightarrow> (stack @ parents, foldl openTag p parents))"

text \<open>
  One iteration of the field loop of \<open>marshalStruct\<close>, up to the point where it
  continues with the next field (\<open>Continue\<close>), returns an error (\<open>Return\<close>) or
  reaches the call of \<open>marshalValue\<close> after the switch (\<open>Descend\<close>).
\<close>

datatype fstep = Continue "string list" printer | Return error printer | Descend "string list" printer

definition IsNil :: "rvalue \<Rightarrow> bool" where
  "IsNil v = (Elem v = None)"

definition fieldStep ::
  "(string \<Rightarrow> string) \<Rightarrow> fieldInfo \<Rightarrow> rvalue \<Rightarrow> rtype \<Rightarrow> string list \<Rightarrow> printer \<Rightarrow> fstep" where
  "fieldStep esc finfo vf valtype stack p =
     (let mode = fflags finfo \<inter> fMode in
      if mode = {fCharData} then Continue stack (charData esc vf p)
      else if mode = {fComment} then
        (case comment vf valtype p of
           (Some e, p') \<Rightarrow> Return e p'
         | (None, p') \<Rightarrow> Continue stack p')
      else if mode = {fInnerXml} then
        (case rawInner vf of
           Some raw \<Rightarrow> Continue stack (WriteString raw p)
         | None \<Rightarrow> Descend stack p)
      else if mode = {fElement} \<or> mode = {fElement, fAny} then
        (case trim (fparents finfo) (stack, p) of (stack1, p1) \<Rightarrow>
           if length (fparents finfo) > length stack1
              \<and> (Kind vf \<noteq> Ptr \<and> Kind vf \<noteq> Interface \<or> \<not> IsNil vf)
           then (case push (drop (length stack1) (fparents finfo)) (stack1, p1) of
                   (stack2, p2) \<Rightarrow> Descend stack2 p2)
           else Descend stack1 p1)
      else Descend stack p)"

section \<open>Opening and closing an element (marshalValue)\<close>

text \<open>
  The type-descriptor provider \<open>getTypeInfo\<close> is a parameter \<open>gti\<close> of the model.
\<close>

type_synonym provider = "rtype \<Rightarrow> string \<Rightarrow> error + typeInfo"

text \<open>The name and namespace the XMLName designator gives, if any.\<close>

definition xmlnameOf :: "typeInfo \<Rightarrow> rvalue \<Rightarrow> error + (string \<times> string) option" where
  "xmlnameOf tinfo val =
     (case xmlname tinfo of
        None \<Rightarrow> Inr None
      | Some xn \<Rightarrow>
          if fname xn \<noteq> [] then Inr (Some (fxmlns xn, fname xn))
          else (case fvalue xn val of
                  Inl e \<Rightarrow> Inl e
                | Inr v \<Rightarrow>
                    (case asName (InterfaceV v) of
                       Some (sp, lo) \<Rightarrow> if lo \<noteq> [] then Inr (Some (sp, lo)) else Inr None
                     | None \<Rightarrow> Inr None)))"

text \<open>
  Resolving the namespace, the type descriptor, the prefix and the name of the element:
  the result is the error returned, or \<open>(tinfo, pfx, name)\<close>.
\<close>

definition elementName ::
  "provider \<Rightarrow> rvalue \<Rightarrow> fieldInfo option \<Rightarrow> nat \<Rightarrow> heap \<Rightarrow>
     (error + typeInfo \<times> string \<times> string) \<times> heap" where
  "elementName gti val finfo nsctx h =
     (let h1 = (case finfo of Some fi \<Rightarrow> set_xmlns nsctx (fxmlns fi) h | None \<Rightarrow> h) in
      case gti (Type val) (xmlns (h1 ! nsctx)) of
        Inl e \<Rightarrow> (Inl e, h1)
      | Inr tinfo \<Rightarrow>
          (case xmlnameOf tinfo val of
             Inl e \<Rightarrow> (Inl e, h1)
           | Inr r \<Rightarrow>
               let h2 = (case r of Some (sp, nm) \<Rightarrow> set_xmlns nsctx sp h1 | None \<Rightarrow> h1);
                   name0 = (case r of Some (sp, nm) \<Rightarrow> nm | None \<Rightarrow> []);
                   pfx = (case finfo of Some fi \<Rightarrow> if name0 = [] then fprefix fi else [] | None \<Rightarrow> []);
                   name1 = (case finfo of Some fi \<Rightarrow> if name0 = [] then fname fi else name0 | None \<Rightarrow> name0)
               in if name1 = [] then
                    (if Name (Type val) = [] then (Inl (UnsupportedTypeError (Type val)), h2)
                     else (Inr (tinfo, pfx, Name (Type val)), h2))
                  else (Inr (tinfo, pfx, name1), h2)))"

text \<open>The prefix written before a tag name.\<close>

definition writePfx :: "string \<Rightarrow> string \<Rightarrow> printer \<Rightarrow> printer" where
  "writePfx pfx mapPfx p =
     (if pfx \<noteq> [] then WriteByte (CHR '':'') (WriteString pfx p)
      else if mapPfx \<noteq> [] then WriteByte (CHR '':'') (WriteString mapPfx p)
      else p)"

text \<open>
  Writing the start of the open tag and, where the namespace has no mapping, binding it
  in the context of this element and declaring it. The result carries \<open>mapPfx\<close>.
\<close>

definition startTag ::
  "(string \<Rightarrow> string) \<Rightarrow> string \<Rightarrow> string \<Rightarrow> nat \<Rightarrow> printer \<times> heap \<Rightarrow>
     (string \<times> printer \<times> heap) option" where
  "startTag esc pfx name nsctx s =
     (case s of (p, h) \<Rightarrow>
      case Get h nsctx (xmlns (h ! nsctx)) of
        None \<Rightarrow> None
      | Some (mapPfx, isMapped) \<Rightarrow>
          let p1 = WriteString name (writePfx pfx mapPfx (WriteByte (CHR ''<'') (writeIndent 1 p)))
          in if xmlns (h ! nsctx) \<noteq> [] \<and> \<not> isMapped then
               let h' = bind nsctx (xmlns (h ! nsctx)) pfx h;
                   p2 = WriteString '' xmlns'' p1;
                   p3 = (if pfx \<noteq> [] then WriteString pfx (WriteByte (CHR '':'') p2) else p2);
                   p4 = WriteString [CHR ''='', CHR 0x22] p3;
                   p5 = Escape esc (xmlns (h' ! nsctx)) p4
               in Some (mapPfx, WriteByte (CHR 0x22) p5, h')
             else Some (mapPfx, p1, h))"

text \<open>One iteration of the loop that scans the attributes for new namespaces.\<close>

definition scanAttr ::
  "(string \<Rightarrow> string) \<Rightarrow> rvalue \<Rightarrow> string \<Rightarrow> nat \<Rightarrow> fieldInfo \<Rightarrow> printer \<times> heap \<Rightarrow>
     (error option \<times> printer \<times> heap) option" where
  "scanAttr esc val name nsctx attrInfo s =
     (case s of (p, h) \<Rightarrow>
      if fAttr \<notin> fflags attrInfo then Some (None, p, h)
      else
        case fvalue attrInfo val of
          Inl e \<Rightarrow> Some (Some e, p, h)
        | Inr fv \<Rightarrow>
            if fOmitEmpty \<in> fflags attrInfo \<and> isEmptyValue fv then Some (None, p, h)
            else
              case Get h nsctx (fxmlns attrInfo) of
                None \<Rightarrow> None
              | Some (m, attrIsMapped) \<Rightarrow>
                  if fxmlns attrInfo \<noteq> [] \<and> \<not> attrIsMapped then
                    if fprefix attrInfo = [] then
                      Some (Some (AttrNeedsPrefix (fname attrInfo) name), p, h)
                    else
                      let h' = bind nsctx (fxmlns attrInfo) (fprefix attrInfo) h;
                          p1 = WriteString (fprefix attrInfo) (WriteString '' xmlns:'' p);
                          p2 = WriteString [CHR ''='', CHR 0x22] p1;
                          p3 = Escape esc (fxmlns attrInfo) p2
                      in Some (None, WriteByte (CHR 0x22) p3, h')
                  else Some (None, p, h))"

fun scanAttrs ::
  "(string \<Rightarrow> string) \<Rightarrow> rvalue \<Rightarrow> string \<Rightarrow> nat \<Rightarrow> fieldInfo list \<Rightarrow> printer \<times> heap \<Rightarrow>
     (error option \<times> printer \<times> heap) option" where
  "scanAttrs esc val name nsctx [] s = Some (None, s)"
| "scanAttrs esc val name nsctx (a # as) s =
     (case scanAttr esc val name nsctx a s of
        None \<Rightarrow> None
      | Some (Some e, s') \<Rightarrow> Some (Some e, s')
      | Some (None, s') \<Rightarrow> scanAttrs esc val name nsctx as s')"

text \<open>One iteration of the loop that writes the attributes.\<close>

definition writeAttr ::
  "(string \<Rightarrow> string) \<Rightarrow> rvalue \<Rightarrow> nat \<Rightarrow> heap \<Rightarrow> fieldInfo \<Rightarrow> printer \<Rightarrow>
     (error option \<times> printer) option" where
  "writeAttr esc val nsctx h attrInfo p =
     (if fAttr \<notin> fflags attrInfo then Some (None, p)
      else
        case fvalue attrInfo val of
          Inl e \<Rightarrow> Some (Some e, p)
        | Inr fv \<Rightarrow>
            if fOmitEmpty \<in> fflags attrInfo \<and> isEmptyValue fv then Some (None, p)
            else
              case Get h nsctx (fxmlns attrInfo) of
                None \<Rightarrow> None
              | Some (pref, m) \<Rightarrow>
                  let p1 = writePfx pref [] (WriteByte (CHR '' '') p);
                      p2 = WriteString [CHR ''='', CHR 0x22] (WriteString (fname attrInfo) p1)
                  in case marshalSimple esc (Type fv) fv p2 of
                       (Some e, p3) \<Rightarrow> Some (Some e, p3)
                     | (None, p3) \<Rightarrow> Some (None, WriteByte (CHR 0x22) p3))"

fun writeAttrs ::
  "(string \<Rightarrow> string) \<Rightarrow> rvalue \<Rightarrow> nat \<Rightarrow> heap \<Rightarrow> fieldInfo list \<Rightarrow> printer \<Rightarrow>
     (error option \<times> printer) option" where
  "writeAttrs esc val nsctx h [] p = Some (None, p)"
| "writeAttrs esc val nsctx h (a # as) p =
     (case writeAttr esc val nsctx h a p of
        None \<Rightarrow> None
      | Some (Some e, p') \<Rightarrow> Some (Some e, p')
      | Some (None, p') \<Rightarrow> writeAttrs esc val nsctx h as p')"

text \<open>
  Everything \<open>marshalValue\<close> does for an element before its body: the result is the
  error returned, or \<open>(tinfo, pfx, mapPfx, name)\<close> for the body and the close tag.
\<close>

definition openElement ::
  "provider \<Rightarrow> (string \<Rightarrow> string) \<Rightarrow> rvalue \<Rightarrow> fieldInfo option \<Rightarrow> nat \<Rightarrow> printer \<times> heap \<Rightarrow>
     ((error + typeInfo \<times> string \<times> string \<times> string) \<times> printer \<times> heap) option" where
  "openElement gti esc val finfo nsctx s =
     (case s of (p, h) \<Rightarrow>
      case elementName gti val finfo nsctx h of
        (Inl e, h1) \<Rightarrow> Some (Inl e, p, h1)
      | (Inr (tinfo, pfx, name), h1) \<Rightarrow>
          (case startTag esc pfx name nsctx (p, h1) of
             None \<Rightarrow> None
           | Some (mapPfx, s2) \<Rightarrow>
               (case scanAttrs esc val name nsctx (tfields tinfo) s2 of
                  None \<Rightarrow> None
                | Some (Some e, s3) \<Rightarrow> Some (Inl e, s3)
                | Some (None, p3, h3) \<Rightarrow>
                    (case writeAttrs esc val nsctx h3 (tfields tinfo) p3 of
                       None \<Rightarrow> None
                     | Some (Some e, p4) \<Rightarrow> Some (Inl e, p4, h3)
                     | Some (None, p4) \<Rightarrow>
                         Some (Inr (tinfo, pfx, mapPfx, name), WriteByte (CHR ''>'') p4, h3)))))"

definition endTag :: "string \<Rightarrow> string \<Rightarrow> string \<Rightarrow> printer \<Rightarrow> printer" where
  "endTag pfx mapPfx name p =
     WriteByte (CHR ''>'') (WriteString name
       (writePfx pfx mapPfx (WriteByte (CHR ''/'') (WriteByte (CHR ''<'') (writeIndent (- 1) p)))))"

section \<open>The recursive marshaller\<close>

text \<open>The measure of a value, for the termination of the recursion.\<close>

fun vsize :: "rvalue \<Rightarrow> nat" where
  "vsize (VPtr _ (Some v)) = Suc (vsize v)"
| "vsize (VInterface _ (Some v)) = Suc (vsize v)"
| "vsize (VSeq _ _ _ vs) = Suc (sum_list (map vsize vs))"
| "vsize (VStruct _ fs) = Suc (sum_list (map vsize fs))"
| "vsize (VName _ _) = 2"
| "vsize _ = 1"

text \<open>
  \<open>marshalSeq\<close> is the loop over the elements of a slice or array in
  \<open>marshalValue\<close>; \<open>marshalFields\<close> is the loop over the field descriptors in
  \<open>marshalStruct\<close>, followed by the closing of the parent stack. A result
  \<open>Some (e, p, h)\<close> is the error returned (\<open>None\<close> for nil), the printer and the
  store of contexts afterwards.
\<close>

function marshalValue ::
    "provider \<Rightarrow> (string \<Rightarrow> string) \<Rightarrow> rvalue \<Rightarrow> fieldInfo option \<Rightarrow> nat \<Rightarrow> printer \<times> heap \<Rightarrow>
       (error option \<times> printer \<times> heap) option"
  and marshalSeq ::
    "provider \<Rightarrow> (string \<Rightarrow> string) \<Rightarrow> rvalue list \<Rightarrow> fieldInfo option \<Rightarrow> nat \<Rightarrow> printer \<times> heap \<Rightarrow>
       (error option \<times> printer \<times> heap) option"
  and marshalStruct ::
    "provider \<Rightarrow> (string \<Rightarrow> string) \<Rightarrow> typeInfo \<Rightarrow> rvalue \<Rightarrow> nat \<Rightarrow> printer \<times> heap \<Rightarrow>
       (error option \<times> printer \<times> heap) option"
  and marshalFields ::
    "provider \<Rightarrow> (string \<Rightarrow> string) \<Rightarrow> fieldInfo list \<Rightarrow> rvalue \<Rightarrow> nat \<Rightarrow> string list \<Rightarrow>
       printer \<times> heap \<Rightarrow> (error option \<times> printer \<times> heap) option"
where
  "marshalValue gti esc val finfo nsctx (p, h) =
     (if \<not> IsValid val then Some (None, p, h)
      else if (case finfo of Some fi \<Rightarrow> fOmitEmpty \<in> fflags fi \<and> isEmptyValue val | None \<Rightarrow> False)
      then Some (None, p, h)
      else if Kind val = Ptr \<or> Kind val = Interface then
        (case Elem val of
           None \<Rightarrow> Some (None, p, h)
         | Some v \<Rightarrow> marshalValue gti esc v finfo nsctx (p, h))
      else if (Kind val = Slice \<or> Kind val = Array) \<and> ElemKind val \<noteq> UintK KUint8 then
        marshalSeq gti esc (Elems val) finfo nsctx (p, h)
      else if nsctx < length h then
        (case openElement gti esc val finfo nsctx (p, h) of
           None \<Rightarrow> None
         | Some (Inl e, s1) \<Rightarrow> Some (Some e, s1)
         | Some (Inr (tinfo, pfx, mapPfx, name), p1, h1) \<Rightarrow>
             (case (if Kind val = Struct then marshalStruct gti esc tinfo val nsctx (p1, h1)
                    else (case marshalSimple esc (Type val) val p1 of (e, p2) \<Rightarrow> Some (e, p2, h1))) of
                None \<Rightarrow> None
              | Some (Some e, s2) \<Rightarrow> Some (Some e, s2)
              | Some (None, p2, h2) \<Rightarrow>
                  Some (cachedWriteError (endTag pfx mapPfx name p2), endTag pfx mapPfx name p2, h2)))
      else None)"
| "marshalSeq gti esc [] finfo nsctx (p, h) = Some (None, p, h)"
| "marshalSeq gti esc (v # vs) finfo nsctx (p, h) =
     (case child h nsctx of (h', c) \<Rightarrow>
      case marshalValue gti esc v finfo c (p, h') of
        None \<Rightarrow> None
      | Some (Some e, s1) \<Rightarrow> Some (Some e, s1)
      | Some (None, p1, h1) \<Rightarrow> marshalSeq gti esc vs finfo nsctx (p1, h1))"
| "marshalStruct gti esc tinfo val nsctx (p, h) =
     (if isTime val then Some (None, WriteString (timeText val) p, h)
      else marshalFields gti esc (tfields tinfo) val nsctx [] (p, h))"
| "marshalFields gti esc [] val nsctx stack (p, h) =
     (case trim [] (stack, p) of (stack', p') \<Rightarrow> Some (cachedWriteError p', p', h))"
| "marshalFields gti esc (finfo # fs) val nsctx stack (p, h) =
     (if fAttr \<in> fflags finfo then marshalFields gti esc fs val nsctx stack (p, h)
      else
        case fvalue finfo val of
          Inl e \<Rightarrow> Some (Some e, p, h)
        | Inr vf \<Rightarrow>
            (case fieldStep esc finfo vf (Type val) stack p of
               Continue stack' p' \<Rightarrow> marshalFields gti esc fs val nsctx stack' (p', h)
             | Return e p' \<Rightarrow> Some (Some e, p', h)
             | Descend stack' p' \<Rightarrow>
                 (case child h nsctx of (h', c) \<Rightarrow>
                  case marshalValue gti esc vf (Some finfo) c (p', h') of
                    None \<Rightarrow> None
                  | Some (Some e, s1) \<Rightarrow> Some (Some e, s1)
                  | Some (None, p1, h1) \<Rightarrow> marshalFields gti esc fs val nsctx stack' (p1, h1))))"
  by pat_completeness auto

termination
proof -
  have pos: "0 < vsize v" for v
    by (induction v rule: vsize.induct) auto
  have nth: "i < length vs \<Longrightarrow> vsize (vs ! i) \<le> sum_list (map vsize vs)" for i vs
    by (induction vs arbitrary: i) (auto simp: nth_Cons split: nat.splits intro: le_SucI trans_le_add2)
  have fv: "fvalue fi v = Inr w \<Longrightarrow> vsize w < vsize v" for fi v w
    by (cases v) (auto simp: fvalue_def nth_Cons le_imp_less_Suc nth split: if_splits nat.splits)
  have el: "Elem v = Some w \<Longrightarrow> vsize w < vsize v" for v w
    by (cases v) auto
  have els: "Kind v = Slice \<or> Kind v = Array \<Longrightarrow> ElemKind v \<noteq> UintK KUint8 \<Longrightarrow>
      sum_list (map vsize (Elems v)) < vsize v" for v
    by (cases v) auto
  show ?thesis
    by (relation "measures [
       \<lambda>x. case x of
          Inl (Inl (gti, esc, v, fi, n, s)) \<Rightarrow> vsize v
        | Inl (Inr (gti, esc, vs, fi, n, s)) \<Rightarrow> sum_list (map vsize vs)
        | Inr (Inl (gti, esc, ti, v, n, s)) \<Rightarrow> vsize v
        | Inr (Inr (gti, esc, fs, v, n, stk, s)) \<Rightarrow> vsize v,
       \<lambda>x. case x of
          Inl (Inl _) \<Rightarrow> 2
        | Inl (Inr _) \<Rightarrow> 3
        | Inr (Inl _) \<Rightarrow> 1
        | Inr (Inr _) \<Rightarrow> (0::nat),
       \<lambda>x. case x of
          Inr (Inr (gti, esc, fs, v, n, stk, s)) \<Rightarrow> length fs
        | _ \<Rightarrow> 0]")
      (auto simp: fv el els pos)
qed

declare marshalValue.simps [simp del]
declare marshalStruct.simps [simp del]
declare marshalSeq.simps [simp del]
declare marshalFields.simps [simp del]

section \<open>The encoder (Encode, Marshal, MarshalIndent)\<close>

record Encoder =
  enc_context :: nat
  enc_printer :: printer

definition NewEncoder :: "heap \<Rightarrow> Encoder \<times> heap" where
  "NewEncoder h =
     (case rootNs2Pfx h of (h', r) \<Rightarrow>
        (\<lparr>enc_context = r,
          enc_printer = \<lparr>out = [], indent = [], prefix = [], depth = 0,
                          indentedIn = False, putNewline = False\<rparr>\<rparr>, h'))"

definition Indent :: "string \<Rightarrow> string \<Rightarrow> Encoder \<Rightarrow> Encoder" where
  "Indent pre ind enc = enc\<lparr>enc_printer := (enc_printer enc)\<lparr>prefix := pre, indent := ind\<rparr>\<rparr>"

text \<open>
  \<open>Encode\<close> takes the reflected value (\<open>Nothing\<close> for a nil interface). The final
  \<open>Flush\<close> succeeds, the underlying writer accepting every write.
\<close>

definition Encode ::
  "provider \<Rightarrow> (string \<Rightarrow> string) \<Rightarrow> rvalue \<Rightarrow> Encoder \<times> heap \<Rightarrow>
     (error option \<times> Encoder \<times> heap) option" where
  "Encode gti esc v s =
     (case s of (enc, h) \<Rightarrow>
      case child h (enc_context enc) of (h', c) \<Rightarrow>
      case marshalValue gti esc v None c (enc_printer enc, h') of
        None \<Rightarrow> None
      | Some (e, p', h'') \<Rightarrow> Some (e, enc\<lparr>enc_printer := p'\<rparr>, h''))"

definition Marshal :: "provider \<Rightarrow> (string \<Rightarrow> string) \<Rightarrow> rvalue \<Rightarrow> (error + string) option" where
  "Marshal gti esc v =
     (case Encode gti esc v (NewEncoder []) of
        None \<Rightarrow> None
      | Some (Some e, enc, h) \<Rightarrow> Some (Inl e)
      | Some (None, enc, h) \<Rightarrow> Some (Inr (out (enc_printer enc))))"

definition MarshalIndent ::
  "provider \<Rightarrow> (string \<Rightarrow> string) \<Rightarrow> rvalue \<Rightarrow> string \<Rightarrow> string \<Rightarrow> (error + string) option" where
  "MarshalIndent gti esc v pre ind =
     (case NewEncoder [] of (enc, h) \<Rightarrow>
      case Encode gti esc v (Indent pre ind enc, h) of
        None \<Rightarrow> None
      | Some (Some e, enc', h') \<Rightarrow> Some (Inl e)
      | Some (None, enc', h') \<Rightarrow> Some (Inr (out (enc_printer enc'))))"

section \<open>Well-formed stores\<close>

text \<open>
  In a store built by \<open>rootNs2Pfx\<close> and \<open>child\<close> every node has a parent, which is
  the node itself (a root) or was allocated before it.
\<close>

definition wf_heap :: "heap \<Rightarrow> bool" where
  "wf_heap h = (\<forall>n < length h. case parent (h ! n) of None \<Rightarrow> True | Some q \<Rightarrow> q \<le> n)"

text \<open>\<open>anc h n a\<close>: \<open>a\<close> is the node \<open>n\<close> or one of its ancestors.\<close>

inductive anc :: "heap \<Rightarrow> nat \<Rightarrow> nat \<Rightarrow> bool" where
  anc_self: "n < length h \<Longrightarrow> anc h n n"
| anc_step: "n < length h \<Longrightarrow> parent (h ! n) = Some q \<Longrightarrow> q \<noteq> n \<Longrightarrow> anc h q a \<Longrightarrow> anc h n a"

text \<open>The stores that the operations of the package build.\<close>

inductive built :: "heap \<Rightarrow> bool" where
  built_empty: "built []"
| built_root: "built h \<Longrightarrow> built (fst (rootNs2Pfx h))"
| built_child: "built h \<Longrightarrow> n < length h \<Longrightarrow> built (fst (child h n))"
| built_bind: "built h \<Longrightarrow> n < length h \<Longrightarrow> built (bind n u pfx h)"
| built_xmlns: "built h \<Longrightarrow> n < length h \<Longrightarrow> built (set_xmlns n u h)"

text \<open>
  The invariant of built stores: every node has a parent, and a root (a node that is its own
  parent) maps the two reserved namespaces.
\<close>

definition rooted :: "heap \<Rightarrow> bool" where
  "rooted h = (wf_heap h \<and> (\<forall>n < length h. parent (h ! n) \<noteq> None \<and>
      (parent (h ! n) = Some n \<longrightarrow> pfxmap (h ! n) XML_NS \<noteq> None \<and> pfxmap (h ! n) XMLNS_NS \<noteq> None)))"

text \<open>
  \<open>firstDef h n k a\<close>: \<open>a\<close> is the nearest node on the chain of \<open>n\<close>,
  \<open>n\<close> included, that maps \<open>k\<close>.
\<close>

inductive firstDef :: "heap \<Rightarrow> nat \<Rightarrow> string \<Rightarrow> nat \<Rightarrow> bool" where
  firstDef_here: "n < length h \<Longrightarrow> pfxmap (h ! n) k \<noteq> None \<Longrightarrow> firstDef h n k n"
| firstDef_up: "n < length h \<Longrightarrow> pfxmap (h ! n) k = None \<Longrightarrow> parent (h ! n) = Some q \<Longrightarrow> q \<noteq> n \<Longrightarrow>
     firstDef h q k a \<Longrightarrow> firstDef h n k a"


section \<open>Example types\<close>

text \<open>
  An escaping function and a provider for a few struct types, for running the model on
  concrete inputs.

  Modelled from the spec: the escaping utility is not under src/; the spec says it escapes
  the characters less-than, greater-than, ampersand, the quotes and restricted control
  characters. The replacement texts are those of the Go library.
\<close>

definition escapeChar :: "char \<Rightarrow> string" where
  "escapeChar c =
     (if c = CHR 0x22 then ''&#34;''
      else if c = CHR 0x27 then ''&#39;''
      else if c = CHR ''&'' then ''&amp;''
      else if c = CHR ''<'' then ''&lt;''
      else if c = CHR ''>'' then ''&gt;''
      else if c = CHR 0x09 then ''&#x9;''
      else if c = CHR 0x0A then ''&#xA;''
      else if c = CHR 0x0D then ''&#xD;''
      else [c])"

definition escapeText :: "string \<Rightarrow> string" where
  "escapeText s = concat (map escapeChar s)"

definition exField :: "nat \<Rightarrow> string \<Rightarrow> fieldFlag set \<Rightarrow> string list \<Rightarrow> fieldInfo" where
  "exField i n fl ps =
     \<lparr>fidx = i, fname = n, fxmlns = [], fprefix = [], fflags = fl, fparents = ps\<rparr>"

definition exAttr :: "nat \<Rightarrow> string \<Rightarrow> string \<Rightarrow> string \<Rightarrow> fieldInfo" where
  "exAttr i n ns pfx =
     \<lparr>fidx = i, fname = n, fxmlns = ns, fprefix = pfx, fflags = {fAttr}, fparents = []\<rparr>"

text \<open>
  \<open>XmppErr\<close> has an XMLName field tagged with namespace xmpp1 and name error; \<open>Note\<close>
  a comment field; \<open>Path\<close> three fields tagged a>b, a>b and a>c; \<open>Raw\<close> a field of raw
  inner markup; \<open>Lang\<close> an attribute lang in the namespace urn:x with prefix x, \<open>Bad\<close>
  the same attribute without a prefix; \<open>Item\<close> is an element of namespace urn:i with a
  child field in the same namespace.
\<close>

definition exProvider :: provider where
  "exProvider t ns =
     (if Name t = ''XmppErr'' then
        Inr \<lparr>xmlname = Some ((exField 0 ''error'' {fElement} [])\<lparr>fxmlns := ''xmpp1''\<rparr>), tfields = []\<rparr>
      else if Name t = ''Note'' then
        Inr \<lparr>xmlname = None, tfields = [exField 0 ''Text'' {fComment} []]\<rparr>
      else if Name t = ''Path'' then
        Inr \<lparr>xmlname = None,
             tfields = [exField 0 ''b'' {fElement} [''a''], exField 1 ''b'' {fElement} [''a''],
                        exField 2 ''c'' {fElement} [''a'']]\<rparr>
      else if Name t = ''Raw'' then
        Inr \<lparr>xmlname = None, tfields = [exField 0 ''Inner'' {fInnerXml} []]\<rparr>
      else if Name t = ''Lang'' then
        Inr \<lparr>xmlname = None, tfields = [exAttr 0 ''lang'' ''urn:x'' ''x'']\<rparr>
      else if Name t = ''Bad'' then
        Inr \<lparr>xmlname = None, tfields = [exAttr 0 ''lang'' ''urn:x'' []]\<rparr>
      else if Name t = ''Item'' then
        Inr \<lparr>xmlname = Some ((exField 0 ''item'' {fElement} [])\<lparr>fxmlns := ''urn:i''\<rparr>),
             tfields = [(exField 1 ''sub'' {fElement} [])\<lparr>fxmlns := ''urn:i''\<rparr>]\<rparr>
      else Inr \<lparr>xmlname = None, tfields = []\<rparr>)"

definition exPrinter :: printer where
  "exPrinter = \<lparr>out = [], indent = [], prefix = [], depth = 0, indentedIn = False, putNewline = False\<rparr>"

definition exHeap :: heap where
  "exHeap = fst (child (fst (rootNs2Pfx [])) 0)"

section \<open>How a run changes the store and the printer\<close>


text \<open>
  \<open>grows n h h'\<close>: besides appended nodes, only the node \<open>n\<close> of \<open>h\<close> may have
  changed; it has kept its parent and every binding it had.
\<close>

definition grows :: "nat \<Rightarrow> heap \<Rightarrow> heap \<Rightarrow> bool" where
  "grows n h h' =
     (length h \<le> length h' \<and> (\<forall>m < length h. m \<noteq> n \<longrightarrow> h' ! m = h ! m)
      \<and> parent (h' ! n) = parent (h ! n) \<and> pfxmap (h ! n) \<subseteq>\<^sub>m pfxmap (h' ! n))"

text \<open>
  \<open>pext p p'\<close>: the printer \<open>p'\<close> has the configuration of \<open>p\<close> and its output with
  something appended; when indentation is disabled nothing else has changed.
\<close>

definition pext :: "printer \<Rightarrow> printer \<Rightarrow> bool" where
  "pext p p' =
     (prefix p' = prefix p \<and> indent p' = indent p \<and> (\<exists>d. out p' = out p @ d)
      \<and> (prefix p = [] \<and> indent p = [] \<longrightarrow> p' = p\<lparr>out := out p'\<rparr>))"



text \<open>
  \<open>shift o p\<close> is the printer \<open>p\<close> with \<open>o\<close> put before its output: the same printer
  started on a writer that had already received \<open>o\<close>.
\<close>

definition shift :: "string \<Rightarrow> printer \<Rightarrow> printer" where
  "shift pre p = p\<lparr>out := pre @ out p\<rparr>"

text \<open>Two contexts, each in its store, that resolve every namespace alike.\<close>

definition geq :: "heap \<Rightarrow> nat \<Rightarrow> heap \<Rightarrow> nat \<Rightarrow> bool" where
  "geq h1 n1 h2 n2 =
     (wf_heap h1 \<and> wf_heap h2 \<and> n1 < length h1 \<and> n2 < length h2 \<and> (\<forall>k. Get h1 n1 k = Get h2 n2 k))"



section \<open>Properties of the namespace contexts\<close>


lemma wf_parent: "wf_heap h \<Longrightarrow> n < length h \<Longrightarrow> parent (h ! n) = Some q \<Longrightarrow> q \<le> n"
  unfolding wf_heap_def by (erule allE[of _ n]) simp

lemma wf_parent_less: "wf_heap h \<Longrightarrow> n < length h \<Longrightarrow> parent (h ! n) = Some q \<Longrightarrow> q \<noteq> n \<Longrightarrow> q < n"
  using wf_parent[of h n q] by simp

lemma Get_total: "wf_heap h \<Longrightarrow> n < length h \<Longrightarrow> \<exists>r. Get h n k = Some r"
proof (induction n rule: less_induct)
  case (less n)
  show ?case
  proof (cases "pfxmap (h ! n) k")
    case (Some v)
    with less.prems show ?thesis by (subst Get.simps) auto
  next
    case None
    show ?thesis
    proof (cases "parent (h ! n)")
      case nopar: None
      with None less.prems show ?thesis by (subst Get.simps) auto
    next
      case (Some q)
      show ?thesis
      proof (cases "q = n")
        case True
        with None Some less.prems show ?thesis by (subst Get.simps) auto
      next
        case False
        with Some less.prems have "q < n" by (auto dest: wf_parent_less)
        with less have "\<exists>r. Get h q k = Some r" by simp
        with None Some False less.prems show ?thesis by (subst Get.simps) auto
      qed
    qed
  qed
qed


lemma Get_result: "wf_heap h \<Longrightarrow> n < length h \<Longrightarrow> Get h n k = Some (v, False) \<Longrightarrow> v = []"
proof (induction n rule: less_induct)
  case (less n)
  have rec: "Get h q k = Some (v, False) \<Longrightarrow> v = []" if "parent (h ! n) = Some q" "q \<noteq> n" for q
  proof -
    from that less.prems have "q < n" by (auto dest: wf_parent_less)
    with less show "Get h q k = Some (v, False) \<Longrightarrow> v = []" by simp
  qed
  from less.prems(3) show ?case
    using less.prems(2) rec
    by (subst (asm) Get.simps) (auto split: option.splits if_splits)
qed

lemma anc_iff:
  "anc h n a = (n < length h \<and> (a = n \<or> (\<exists>q. parent (h ! n) = Some q \<and> q \<noteq> n \<and> anc h q a)))"
  by (subst anc.simps) auto

lemma Get_mapped_iff:
  "wf_heap h \<Longrightarrow> n < length h \<Longrightarrow>
   (\<exists>v. Get h n k = Some (v, True)) = (\<exists>a. anc h n a \<and> pfxmap (h ! a) k \<noteq> None)"
proof (induction n rule: less_induct)
  case (less n)
  have rec: "(\<exists>v. Get h q k = Some (v, True)) = (\<exists>a. anc h q a \<and> pfxmap (h ! a) k \<noteq> None)"
    if "parent (h ! n) = Some q" "q \<noteq> n" for q
  proof -
    from that less.prems have "q < n" by (auto dest: wf_parent_less)
    with less show ?thesis by simp
  qed
  show ?case
  proof (cases "pfxmap (h ! n) k")
    case (Some v)
    with less.prems have "Get h n k = Some (v, True)" by (subst Get.simps) simp
    moreover have "anc h n n" using less.prems by (simp add: anc_self)
    ultimately show ?thesis using Some by auto
  next
    case None
    show ?thesis
    proof (cases "\<exists>q. parent (h ! n) = Some q \<and> q \<noteq> n")
      case True
      then obtain q where q: "parent (h ! n) = Some q" "q \<noteq> n" by auto
      have "Get h n k = Get h q k" using None q less.prems by (subst Get.simps) simp
      moreover have "(\<exists>a. anc h n a \<and> pfxmap (h ! a) k \<noteq> None) = (\<exists>a. anc h q a \<and> pfxmap (h ! a) k \<noteq> None)"
        using None q less.prems by (subst anc_iff) auto
      ultimately show ?thesis using rec[OF q] by simp
    next
      case False
      then have "Get h n k = Some ([], False)" using None less.prems
        by (subst Get.simps) (auto split: option.splits)
      moreover have "\<not> (\<exists>a. anc h n a \<and> pfxmap (h ! a) k \<noteq> None)"
        using None False by (subst anc_iff) auto
      ultimately show ?thesis by simp
    qed
  qed
qed


lemma built_rooted: "built h \<Longrightarrow> rooted h"
proof (induction rule: built.induct)
  case built_empty
  show ?case by (simp add: rooted_def wf_heap_def)
next
  case (built_root h)
  then show ?case
    by (auto simp: rooted_def wf_heap_def rootNs2Pfx_def nth_append XML_NS_def XMLNS_NS_def split: option.splits)
next
  case (built_child h n)
  then show ?case
    by (auto simp: rooted_def wf_heap_def child_def nth_append split: option.splits)
next
  case (built_bind h n u pfx)
  then show ?case
    by (auto simp: rooted_def wf_heap_def bind_def nth_list_update split: option.splits)
next
  case (built_xmlns h n u)
  then show ?case
    by (auto simp: rooted_def wf_heap_def set_xmlns_def nth_list_update split: option.splits)
qed

lemma rooted_Get_reserved:
  "rooted h \<Longrightarrow> n < length h \<Longrightarrow> k = XML_NS \<or> k = XMLNS_NS \<Longrightarrow> \<exists>p. Get h n k = Some (p, True)"
proof (induction n rule: less_induct)
  case (less n)
  from less.prems have wf: "wf_heap h" by (simp add: rooted_def)
  from less.prems obtain q where q: "parent (h ! n) = Some q" by (auto simp: rooted_def)
  show ?case
  proof (cases "pfxmap (h ! n) k")
    case (Some v)
    with less.prems show ?thesis by (subst Get.simps) auto
  next
    case None
    with less.prems q have "q \<noteq> n" by (auto simp: rooted_def)
    with wf q less.prems have "q < n" by (auto dest: wf_parent_less)
    with less have "\<exists>p. Get h q k = Some (p, True)" by simp
    with None q \<open>q \<noteq> n\<close> less.prems show ?thesis by (subst Get.simps) auto
  qed
qed

lemma firstDef_Get: "firstDef h n k a \<Longrightarrow> pfxmap (h ! a) k = Some v \<Longrightarrow> Get h n k = Some (v, True)"
  by (induction rule: firstDef.induct) (subst Get.simps, simp)+

text \<open>
  Claim C7. In every store built by the operations of the package and for every node of it,
  \<open>Get\<close> returns the local mapping of the key when there is one, otherwise what the
  parent returns (hence the mapping of the nearest ancestor that has one), and the empty
  prefix with \<open>False\<close> exactly when no node of the chain maps the key; it always returns.
  A root is its own parent, which ends the recursion, and is created with exactly the two
  reserved bindings, so the two reserved namespaces are mapped in every context.
\<close>

theorem context_Get_chain:
  assumes "built h" and "n < length h"
  shows "(\<forall>v. pfxmap (h ! n) k = Some v \<longrightarrow> Get h n k = Some (v, True))
    \<and> (\<forall>a v. firstDef h n k a \<and> pfxmap (h ! a) k = Some v \<longrightarrow> Get h n k = Some (v, True))
    \<and> (pfxmap (h ! n) k = None \<longrightarrow>
         (\<exists>q. parent (h ! n) = Some q \<and> q \<le> n
            \<and> (q \<noteq> n \<longrightarrow> Get h n k = Get h q k)
            \<and> (q = n \<longrightarrow> Get h n k = Some ([], False))))
    \<and> (\<exists>r. Get h n k = Some r)
    \<and> ((Get h n k = Some ([], False)) = (\<forall>a. anc h n a \<longrightarrow> pfxmap (h ! a) k = None))
    \<and> (\<exists>p. Get h n XML_NS = Some (p, True))
    \<and> (\<exists>p. Get h n XMLNS_NS = Some (p, True))
    \<and> (\<forall>h0. parent (fst (rootNs2Pfx h0) ! snd (rootNs2Pfx h0)) = Some (snd (rootNs2Pfx h0))
          \<and> pfxmap (fst (rootNs2Pfx h0) ! snd (rootNs2Pfx h0)) = [XML_NS \<mapsto> ''xml'', XMLNS_NS \<mapsto> ''xmlns''])"
proof -
  from assms(1) have r: "rooted h" by (rule built_rooted)
  then have wf: "wf_heap h" by (simp add: rooted_def)
  have c1: "\<forall>v. pfxmap (h ! n) k = Some v \<longrightarrow> Get h n k = Some (v, True)"
    using assms(2) by (subst Get.simps) simp
  have c2: "\<forall>a v. firstDef h n k a \<and> pfxmap (h ! a) k = Some v \<longrightarrow> Get h n k = Some (v, True)"
    by (auto intro: firstDef_Get)
  have c3: "pfxmap (h ! n) k = None \<longrightarrow>
         (\<exists>q. parent (h ! n) = Some q \<and> q \<le> n
            \<and> (q \<noteq> n \<longrightarrow> Get h n k = Get h q k)
            \<and> (q = n \<longrightarrow> Get h n k = Some ([], False)))"
  proof
    assume none: "pfxmap (h ! n) k = None"
    from r assms(2) obtain q where q: "parent (h ! n) = Some q" by (auto simp: rooted_def)
    with wf assms(2) have "q \<le> n" by (rule wf_parent)
    moreover have "q \<noteq> n \<longrightarrow> Get h n k = Get h q k"
      using none q assms(2) by (subst Get.simps) simp
    moreover have "q = n \<longrightarrow> Get h n k = Some ([], False)"
      using none q assms(2) by (subst Get.simps) simp
    ultimately show "\<exists>q. parent (h ! n) = Some q \<and> q \<le> n
            \<and> (q \<noteq> n \<longrightarrow> Get h n k = Get h q k)
            \<and> (q = n \<longrightarrow> Get h n k = Some ([], False))" using q by blast
  qed
  have c4: "\<exists>r. Get h n k = Some r" using wf assms(2) by (rule Get_total)
  have c5: "(Get h n k = Some ([], False)) = (\<forall>a. anc h n a \<longrightarrow> pfxmap (h ! a) k = None)"
  proof -
    from c4 obtain v b where g: "Get h n k = Some (v, b)" by auto
    show ?thesis
    proof (cases b)
      case True
      with g Get_mapped_iff[OF wf assms(2), of k] show ?thesis by auto
    next
      case False
      with g Get_result[OF wf assms(2)] have "Get h n k = Some ([], False)" by auto
      moreover from g False Get_mapped_iff[OF wf assms(2), of k]
      have "\<forall>a. anc h n a \<longrightarrow> pfxmap (h ! a) k = None" by auto
      ultimately show ?thesis by simp
    qed
  qed
  have c6: "\<exists>p. Get h n XML_NS = Some (p, True)" "\<exists>p. Get h n XMLNS_NS = Some (p, True)"
    using rooted_Get_reserved[OF r assms(2)] by auto
  have c7: "\<forall>h0. parent (fst (rootNs2Pfx h0) ! snd (rootNs2Pfx h0)) = Some (snd (rootNs2Pfx h0))
          \<and> pfxmap (fst (rootNs2Pfx h0) ! snd (rootNs2Pfx h0)) = [XML_NS \<mapsto> ''xml'', XMLNS_NS \<mapsto> ''xmlns'']"
    by (simp add: rootNs2Pfx_def)
  from c1 c2 c3 c4 c5 c6 c7 show ?thesis by blast
qed

theorem context_Get_chain_witness:
  "built (fst (child (fst (rootNs2Pfx [])) 0))
   \<and> (1::nat) < length (fst (child (fst (rootNs2Pfx [])) 0))
   \<and> pfxmap (fst (child (fst (rootNs2Pfx [])) 0) ! 1) XML_NS = None
   \<and> firstDef (fst (child (fst (rootNs2Pfx [])) 0)) 1 XML_NS 0
   \<and> Get (fst (child (fst (rootNs2Pfx [])) 0)) 1 XML_NS = Some (''xml'', True)
   \<and> Get (fst (child (fst (rootNs2Pfx [])) 0)) 1 ''urn:x'' = Some ([], False)"
proof -
  let ?h = "fst (child (fst (rootNs2Pfx [])) 0)"
  have b: "built ?h"
    by (rule built_child, rule built_root, rule built_empty) (simp add: rootNs2Pfx_def)
  have l: "(1::nat) < length ?h" by (simp add: child_def rootNs2Pfx_def)
  have n: "pfxmap (?h ! 1) XML_NS = None" by (simp add: child_def rootNs2Pfx_def)
  have f0: "firstDef ?h 0 XML_NS 0"
    by (rule firstDef_here) (simp_all add: child_def rootNs2Pfx_def)
  have f: "firstDef ?h 1 XML_NS 0"
    by (rule firstDef_up[where q=0, OF l n _ _ f0]) (simp_all add: child_def rootNs2Pfx_def)
  have v: "pfxmap (?h ! 0) XML_NS = Some ''xml''"
    by (simp add: child_def rootNs2Pfx_def XML_NS_def XMLNS_NS_def)
  have a: "\<forall>a. anc ?h 1 a \<longrightarrow> pfxmap (?h ! a) ''urn:x'' = None"
  proof (intro allI impI)
    fix a assume "anc ?h 1 a"
    then have "a = 1 \<or> anc ?h 0 a"
      by (subst (asm) anc_iff) (auto simp: child_def rootNs2Pfx_def)
    then have "a = 1 \<or> a = 0"
      by (subst (asm) anc_iff) (auto simp: child_def rootNs2Pfx_def)
    then show "pfxmap (?h ! a) ''urn:x'' = None"
      by (auto simp: child_def rootNs2Pfx_def XML_NS_def XMLNS_NS_def)
  qed
  from context_Get_chain[OF b l, of XML_NS] f v
  have g1: "Get ?h 1 XML_NS = Some (''xml'', True)" by blast
  from context_Get_chain[OF b l, of "''urn:x''"] a
  have g2: "Get ?h 1 ''urn:x'' = Some ([], False)" by blast
  from b l n f g1 g2 show ?thesis by blast
qed

section \<open>Dispatch, indentation and the smallest element\<close>

lemmas printer_defs = WriteString_def WriteByte_def Escape_def cachedWriteError_def

lemmas element_defs = openElement_def elementName_def startTag_def endTag_def writePfx_def
  set_xmlns_def bind_def xmlnameOf_def

lemmas ex_defs = exProvider_def exField_def exAttr_def exPrinter_def exHeap_def escapeText_def
  escapeChar_def child_def rootNs2Pfx_def

lemmas eval_defs = ex_defs element_defs printer_defs writeIndent_def scanAttr_def writeAttr_def
  fvalue_def fieldStep_def comment_def rawInner_def trim_def push_def openTag_def closeTag_def
  Type_def IsValid_def IsNil_def fMode_def FormatInt_def FormatBool_def digit_def
  XML_NS_def XMLNS_NS_def marshalValue.simps marshalStruct.simps marshalSeq.simps
  marshalFields.simps Get.simps

text \<open>
  Claim C6. The dispatch of \<open>marshalValue\<close>, in this order: an invalid value gives no
  output and succeeds; with a descriptor marked omit-if-empty an empty value gives no output
  (and \<open>isEmptyValue\<close> holds exactly of an array, map, slice or string of length 0, of
  false, of a zero number and of a nil pointer or interface); a nil pointer or interface
  gives no output, any other is encoded as what it holds, with the same descriptor and the
  same context; a slice or array whose element kind is not Uint8 is encoded as the loop over
  its elements, which writes no tag of its own and gives each element the same descriptor
  and a freshly allocated child context with an empty map.
\<close>

theorem marshalValue_dispatch:
  "marshalValue gti esc Nothing finfo nsctx (p, h) = Some (None, p, h)
   \<and> (fOmitEmpty \<in> fflags fi \<and> isEmptyValue val \<longrightarrow>
        marshalValue gti esc val (Some fi) nsctx (p, h) = Some (None, p, h))
   \<and> ((Kind val = Ptr \<or> Kind val = Interface) \<and> IsNil val \<longrightarrow>
        marshalValue gti esc val finfo nsctx (p, h) = Some (None, p, h))
   \<and> (\<forall>v. Elem val = Some v \<longrightarrow>
        marshalValue gti esc val finfo nsctx (p, h) = marshalValue gti esc v finfo nsctx (p, h))
   \<and> ((Kind val = Slice \<or> Kind val = Array) \<and> ElemKind val \<noteq> UintK KUint8
          \<and> \<not> (case finfo of Some fi \<Rightarrow> fOmitEmpty \<in> fflags fi \<and> isEmptyValue val | None \<Rightarrow> False) \<longrightarrow>
        marshalValue gti esc val finfo nsctx (p, h) = marshalSeq gti esc (Elems val) finfo nsctx (p, h))
   \<and> marshalSeq gti esc [] finfo nsctx (p, h) = Some (None, p, h)
   \<and> marshalSeq gti esc (x # xs) finfo nsctx (p, h) =
        (case marshalValue gti esc x finfo (length h)
                (p, h @ [\<lparr>xmlns = [], pfxmap = Map.empty, parent = Some nsctx\<rparr>]) of
           None \<Rightarrow> None
         | Some (Some e, s1) \<Rightarrow> Some (Some e, s1)
         | Some (None, s1) \<Rightarrow> marshalSeq gti esc xs finfo nsctx s1)
   \<and> isEmptyValue val =
        ((Kind val \<in> {Array, Map, Slice, String} \<and> Len val = 0)
         \<or> (\<exists>t. val = VBool t False)
         \<or> (\<exists>k t. val = VInt k t 0)
         \<or> (\<exists>k t. val = VUint k t 0)
         \<or> (\<exists>k t s. val = VFloat k t True s)
         \<or> ((Kind val = Ptr \<or> Kind val = Interface) \<and> IsNil val))"
proof -
  have c1: "marshalValue gti esc Nothing finfo nsctx (p, h) = Some (None, p, h)"
    by (simp add: marshalValue.simps IsValid_def)
  have c2: "fOmitEmpty \<in> fflags fi \<and> isEmptyValue val \<longrightarrow>
        marshalValue gti esc val (Some fi) nsctx (p, h) = Some (None, p, h)"
    by (simp add: marshalValue.simps)
  have c3: "(Kind val = Ptr \<or> Kind val = Interface) \<and> IsNil val \<longrightarrow>
        marshalValue gti esc val finfo nsctx (p, h) = Some (None, p, h)"
    by (auto simp: marshalValue.simps IsNil_def)
  have c4: "\<forall>v. Elem val = Some v \<longrightarrow>
        marshalValue gti esc val finfo nsctx (p, h) = marshalValue gti esc v finfo nsctx (p, h)"
    by (cases val) (auto simp: marshalValue.simps[of _ _ "VPtr _ _"] marshalValue.simps[of _ _ "VInterface _ _"] IsValid_def split: option.splits)
  have c5: "(Kind val = Slice \<or> Kind val = Array) \<and> ElemKind val \<noteq> UintK KUint8
          \<and> \<not> (case finfo of Some fi \<Rightarrow> fOmitEmpty \<in> fflags fi \<and> isEmptyValue val | None \<Rightarrow> False) \<longrightarrow>
        marshalValue gti esc val finfo nsctx (p, h) = marshalSeq gti esc (Elems val) finfo nsctx (p, h)"
    by (cases val) (auto simp: marshalValue.simps[of _ _ "VSeq _ _ _ _"] marshalValue.simps[of _ _ "VBytes _ _ _"] IsValid_def split: option.splits)
  have c6: "marshalSeq gti esc [] finfo nsctx (p, h) = Some (None, p, h)"
    by (simp add: marshalSeq.simps)
  have c7: "marshalSeq gti esc (x # xs) finfo nsctx (p, h) =
        (case marshalValue gti esc x finfo (length h)
                (p, h @ [\<lparr>xmlns = [], pfxmap = Map.empty, parent = Some nsctx\<rparr>]) of
           None \<Rightarrow> None
         | Some (Some e, s1) \<Rightarrow> Some (Some e, s1)
         | Some (None, s1) \<Rightarrow> marshalSeq gti esc xs finfo nsctx s1)"
    by (simp add: marshalSeq.simps child_def split: option.splits prod.splits)
  have c8: "isEmptyValue val =
        ((Kind val \<in> {Array, Map, Slice, String} \<and> Len val = 0)
         \<or> (\<exists>t. val = VBool t False)
         \<or> (\<exists>k t. val = VInt k t 0)
         \<or> (\<exists>k t. val = VUint k t 0)
         \<or> (\<exists>k t s. val = VFloat k t True s)
         \<or> ((Kind val = Ptr \<or> Kind val = Interface) \<and> IsNil val))"
  proof -
    have sk: "seqk k \<noteq> Ptr" "seqk k \<noteq> Interface" "seqk k \<noteq> Map" "seqk k \<noteq> String"
      "(seqk k \<noteq> Slice) = (seqk k = Array)" for k
      by (cases k; simp)+
    show ?thesis
      by (cases val) (auto simp: IsNil_def sk)
  qed
  from c1 c2 c3 c4 c5 c6 c7 c8 show ?thesis by blast
qed

theorem marshalValue_dispatch_witness:
  "marshalValue exProvider escapeText (VPtr ''P'' (Some (VString ''string'' [])))
      (Some (exField 0 ''s'' {fElement, fOmitEmpty} [])) 1 (exPrinter, exHeap)
    = Some (None, exPrinter, exHeap)
   \<and> marshalValue exProvider escapeText (VSeq SliceK [] String []) None 1 (exPrinter, exHeap)
    = Some (None, exPrinter, exHeap)"
proof -
  have a: "marshalValue exProvider escapeText (VPtr ''P'' (Some (VString ''string'' [])))
      (Some (exField 0 ''s'' {fElement, fOmitEmpty} [])) 1 (exPrinter, exHeap)
    = marshalValue exProvider escapeText (VString ''string'' [])
      (Some (exField 0 ''s'' {fElement, fOmitEmpty} [])) 1 (exPrinter, exHeap)"
    using marshalValue_dispatch[of exProvider escapeText "Some (exField 0 ''s'' {fElement, fOmitEmpty} [])" 1
        exPrinter exHeap "exField 0 ''s'' {fElement, fOmitEmpty} []" "VPtr ''P'' (Some (VString ''string'' []))"]
    by simp
  have b: "marshalValue exProvider escapeText (VString ''string'' [])
      (Some (exField 0 ''s'' {fElement, fOmitEmpty} [])) 1 (exPrinter, exHeap) = Some (None, exPrinter, exHeap)"
    using marshalValue_dispatch[of exProvider escapeText "Some (exField 0 ''s'' {fElement, fOmitEmpty} [])" 1
        exPrinter exHeap "exField 0 ''s'' {fElement, fOmitEmpty} []" "VString ''string'' []"]
    by (simp add: exField_def)
  have c: "marshalValue exProvider escapeText (VSeq SliceK [] String []) None 1 (exPrinter, exHeap)
    = Some (None, exPrinter, exHeap)"
    using marshalValue_dispatch[of exProvider escapeText None 1
        exPrinter exHeap undefined "VSeq SliceK [] String []"]
    by simp
  from a b c show ?thesis by simp
qed

text \<open>
  Claim C9. With an empty prefix and an empty indent unit \<open>MarshalIndent\<close> gives what
  \<open>Marshal\<close> gives, and \<open>writeIndent\<close> leaves the printer as it is.
\<close>

theorem MarshalIndent_empty:
  "MarshalIndent gti esc v [] [] = Marshal gti esc v
   \<and> writeIndent d (p\<lparr>prefix := [], indent := []\<rparr>) = p\<lparr>prefix := [], indent := []\<rparr>"
  by (simp add: MarshalIndent_def Marshal_def NewEncoder_def Indent_def writeIndent_def
      split: prod.splits)

text \<open>
  Claim C10. A field in raw-inner-markup mode whose value is neither of type string nor of
  the unnamed byte slice type is not written verbatim and causes no error in the field
  loop: the loop calls \<open>marshalValue\<close> on the value with the same descriptor and a
  fresh child context, the printer and the parent stack being as they were, and goes on
  with the next field unless that call fails.
\<close>

theorem innerxml_falls_through:
  assumes "fflags finfo \<inter> fMode = {fInnerXml}"
    and "fvalue finfo val = Inr vf"
    and "rawInner vf = None"
  shows "marshalFields gti esc (finfo # fs) val nsctx stack (p, h) =
      (case marshalValue gti esc vf (Some finfo) (length h)
              (p, h @ [\<lparr>xmlns = [], pfxmap = Map.empty, parent = Some nsctx\<rparr>]) of
         None \<Rightarrow> None
       | Some (Some e, s1) \<Rightarrow> Some (Some e, s1)
       | Some (None, s1) \<Rightarrow> marshalFields gti esc fs val nsctx stack s1)
    \<and> (rawInner vf = None) =
        ((\<forall>s. InterfaceV vf \<noteq> VString ''string'' s) \<and> (\<forall>b. InterfaceV vf \<noteq> VBytes SliceK [] b))"
proof -
  from assms(1) have na: "fAttr \<notin> fflags finfo" by (auto simp: fMode_def)
  have fs: "fieldStep esc finfo vf (Type val) stack p = Descend stack p"
    using assms by (simp add: fieldStep_def)
  have a: "marshalFields gti esc (finfo # fs) val nsctx stack (p, h) =
      (case marshalValue gti esc vf (Some finfo) (length h)
              (p, h @ [\<lparr>xmlns = [], pfxmap = Map.empty, parent = Some nsctx\<rparr>]) of
         None \<Rightarrow> None
       | Some (Some e, s1) \<Rightarrow> Some (Some e, s1)
       | Some (None, s1) \<Rightarrow> marshalFields gti esc fs val nsctx stack s1)"
    using na assms(2) fs by (simp add: marshalFields.simps child_def split: option.splits prod.splits)
  have b: "(rawInner vf = None) =
        ((\<forall>s. InterfaceV vf \<noteq> VString ''string'' s) \<and> (\<forall>b. InterfaceV vf \<noteq> VBytes SliceK [] b))"
    by (cases "InterfaceV vf") (auto simp: rawInner_def split: seqKind.splits)
  from a b show ?thesis by blast
qed

theorem innerxml_falls_through_witness:
  "map_option (\<lambda>r. (fst r, out (fst (snd r))))
     (marshalFields exProvider escapeText [exField 0 ''Inner'' {fInnerXml} []]
        (VStruct ''Raw'' [VInt KInt ''int'' 5]) 1 [] (exPrinter, exHeap))
   = Some (None, ''<Inner>5</Inner>'')"
proof -
  let ?f = "exField 0 ''Inner'' {fInnerXml} []"
  let ?v = "VStruct ''Raw'' [VInt KInt ''int'' 5]"
  have m: "fflags ?f \<inter> fMode = {fInnerXml}" by (auto simp: exField_def fMode_def)
  have v: "fvalue ?f ?v = Inr (VInt KInt ''int'' 5)" by (simp add: fvalue_def exField_def)
  have r: "rawInner (VInt KInt ''int'' 5) = None" by (simp add: rawInner_def)
  have mv: "marshalValue exProvider escapeText (VInt KInt ''int'' 5) (Some ?f) (length exHeap)
        (exPrinter, exHeap @ [\<lparr>xmlns = [], pfxmap = Map.empty, parent = Some 1\<rparr>])
      = Some (None, exPrinter\<lparr>out := ''<Inner>5</Inner>''\<rparr>,
           exHeap @ [\<lparr>xmlns = [], pfxmap = Map.empty, parent = Some 1\<rparr>])"
    by (simp add: eval_defs)
  note e1 = conjunct1[OF innerxml_falls_through[OF m v r, of exProvider escapeText "[]" 1 "[]" exPrinter exHeap]]
  show ?thesis
    unfolding e1 mv by (simp add: marshalFields.simps trim_def printer_defs)
qed

text \<open>
  Claim C5. For a struct whose type descriptor has no fields besides an XMLName designator
  giving namespace xmpp1 and local name error, \<open>Marshal\<close> returns exactly the open tag
  with the namespace declaration followed by the separate close tag (the escaping function
  leaving the namespace as it is).
\<close>

theorem xmlname_only_struct:
  assumes "gti (Type (VStruct tn fs)) [] = Inr tinfo"
    and "xmlnameOf tinfo (VStruct tn fs) = Inr (Some (''xmpp1'', ''error''))"
    and "tfields tinfo = []"
    and "esc ''xmpp1'' = ''xmpp1''"
  shows "Marshal gti esc (VStruct tn fs) =
    Some (Inr (''<error xmlns='' @ [CHR 0x22] @ ''xmpp1'' @ [CHR 0x22] @ ''></error>''))"
proof -
  let ?h = "fst (child (fst (rootNs2Pfx [])) 0)"
  let ?h1 = "set_xmlns (Suc 0) ''xmpp1'' ?h"
  let ?p0 = "\<lparr>out = [], indent = [], prefix = [], depth = 0, indentedIn = False, putNewline = False\<rparr>"
  have en: "elementName gti (VStruct tn fs) None (Suc 0) ?h = (Inr (tinfo, [], ''error''), ?h1)"
    using assms(1,2) by (simp add: elementName_def child_def rootNs2Pfx_def)
  have g: "Get ?h1 (Suc 0) ''xmpp1'' = Some ([], False)"
    by (simp add: Get.simps child_def rootNs2Pfx_def set_xmlns_def XML_NS_def XMLNS_NS_def)
  have st: "startTag esc [] ''error'' (Suc 0) (?p0, ?h1) =
      Some ([], ?p0\<lparr>out := ''<error xmlns='' @ [CHR 0x22] @ ''xmpp1'' @ [CHR 0x22]\<rparr>, bind (Suc 0) ''xmpp1'' [] ?h1)"
    using g assms(4)
    by (simp add: startTag_def writePfx_def writeIndent_def printer_defs child_def rootNs2Pfx_def set_xmlns_def bind_def)
  have oe: "openElement gti esc (VStruct tn fs) None (Suc 0) (?p0, ?h) =
      Some (Inr (tinfo, [], [], ''error''),
            ?p0\<lparr>out := ''<error xmlns='' @ [CHR 0x22] @ ''xmpp1'' @ [CHR 0x22] @ ''>''\<rparr>, bind (Suc 0) ''xmpp1'' [] ?h1)"
    using en st assms(3) by (simp add: openElement_def printer_defs)
  have ms: "marshalStruct gti esc tinfo (VStruct tn fs) (Suc 0) (p, h) = Some (None, p, h)" for p h
    using assms(3) by (simp add: marshalStruct.simps marshalFields.simps trim_def printer_defs)
  have len: "Suc 0 < length ?h" by (simp add: child_def rootNs2Pfx_def)
  have mv: "marshalValue gti esc (VStruct tn fs) None (Suc 0) (?p0, ?h) =
      Some (None, ?p0\<lparr>out := ''<error xmlns='' @ [CHR 0x22] @ ''xmpp1'' @ [CHR 0x22] @ ''></error>''\<rparr>,
            bind (Suc 0) ''xmpp1'' [] ?h1)"
    apply (subst marshalValue.simps)
    apply (simp add: IsValid_def oe ms len)
    apply (simp add: endTag_def writePfx_def writeIndent_def printer_defs)
    done
  show ?thesis
    using mv by (simp add: Marshal_def Encode_def NewEncoder_def child_def rootNs2Pfx_def)
qed

theorem xmlname_only_struct_witness:
  "Marshal exProvider escapeText (VStruct ''XmppErr'' [VName [] []]) =
    Some (Inr (''<error xmlns='' @ [CHR 0x22] @ ''xmpp1'' @ [CHR 0x22] @ ''></error>''))"
proof -
  have a: "exProvider (Type (VStruct ''XmppErr'' [VName [] []])) [] =
      Inr \<lparr>xmlname = Some ((exField 0 ''error'' {fElement} [])\<lparr>fxmlns := ''xmpp1''\<rparr>), tfields = []\<rparr>"
    by (simp add: exProvider_def Type_def)
  have b: "xmlnameOf \<lparr>xmlname = Some ((exField 0 ''error'' {fElement} [])\<lparr>fxmlns := ''xmpp1''\<rparr>), tfields = []\<rparr>
      (VStruct ''XmppErr'' [VName [] []]) = Inr (Some (''xmpp1'', ''error''))"
    by (simp add: xmlnameOf_def exField_def)
  have c: "escapeText ''xmpp1'' = ''xmpp1''"
    by (simp add: escapeText_def escapeChar_def)
  show ?thesis
    by (rule xmlname_only_struct[where gti = exProvider and esc = escapeText, OF a b _ c]) simp
qed

section \<open>Comments and parent elements in the field loop\<close>






lemma splitLen_spec:
  "splitLen ps stk \<le> length ps \<and> splitLen ps stk \<le> length stk
   \<and> take (splitLen ps stk) ps = take (splitLen ps stk) stk
   \<and> (splitLen ps stk < length ps \<and> splitLen ps stk < length stk \<longrightarrow>
        ps ! splitLen ps stk \<noteq> stk ! splitLen ps stk)"
  by (induction ps stk rule: splitLen.induct) auto

lemma fieldStep_element:
  assumes "fflags finfo \<inter> fMode = {fElement} \<or> fflags finfo \<inter> fMode = {fElement, fAny}"
  shows "fieldStep esc finfo vf ty stk p =
     (let k = splitLen (fparents finfo) stk;
          p1 = foldl closeTag p (rev (drop k stk))
      in if k < length (fparents finfo) \<and> (Kind vf \<noteq> Ptr \<and> Kind vf \<noteq> Interface \<or> \<not> IsNil vf)
         then Descend (fparents finfo) (foldl openTag p1 (drop k (fparents finfo)))
         else Descend (take k (fparents finfo)) p1)"
proof -
  have ne: "fflags finfo \<inter> fMode \<noteq> {fCharData}" "fflags finfo \<inter> fMode \<noteq> {fComment}"
    "fflags finfo \<inter> fMode \<noteq> {fInnerXml}"
    using assms by auto
  have k: "splitLen (fparents finfo) stk \<le> length (fparents finfo)"
    using splitLen_spec[of "fparents finfo" stk] by simp
  show ?thesis
    using assms ne k
    by (auto simp: fieldStep_def trim_def push_def Let_def min_def)
qed

text \<open>
  Claim C3. For a struct whose three element fields have the paths a>b, a>b and a>c (parent
  path a each), the first value not being a nil pointer or interface, \<open>marshalStruct\<close>
  opens the parent a once, before the first field, encodes the three fields in turn, each
  in a fresh child context, and closes a once, after the last field; it writes nothing
  else itself. In general, an element field closes the open parents beyond the longest
  common prefix of the stack and its own path (innermost first), opens the rest of its
  path unless its value is a nil pointer or interface, and leaves the common prefix open;
  \<open>splitLen\<close> is the length of that longest common prefix; after the last field every
  parent still open is closed.
\<close>

theorem shared_parent_path:
  assumes "\<not> isTime val" and "tfields tinfo = [f1, f2, f3]"
    and "fflags f1 \<inter> fMode = {fElement}" and "fflags f2 \<inter> fMode = {fElement}"
    and "fflags f3 \<inter> fMode = {fElement}"
    and "fparents f1 = [''a'']" and "fparents f2 = [''a'']" and "fparents f3 = [''a'']"
    and "fvalue f1 val = Inr v1" and "fvalue f2 val = Inr v2" and "fvalue f3 val = Inr v3"
    and "Kind v1 \<noteq> Ptr \<and> Kind v1 \<noteq> Interface \<or> \<not> IsNil v1"
  shows "marshalStruct gti esc tinfo val nsctx (p, h) =
      (case marshalValue gti esc v1 (Some f1) (snd (child h nsctx)) (openTag p ''a'', fst (child h nsctx)) of
         None \<Rightarrow> None
       | Some (Some e, s1) \<Rightarrow> Some (Some e, s1)
       | Some (None, p1, h1) \<Rightarrow>
          (case marshalValue gti esc v2 (Some f2) (snd (child h1 nsctx)) (p1, fst (child h1 nsctx)) of
             None \<Rightarrow> None
           | Some (Some e, s2) \<Rightarrow> Some (Some e, s2)
           | Some (None, p2, h2) \<Rightarrow>
              (case marshalValue gti esc v3 (Some f3) (snd (child h2 nsctx)) (p2, fst (child h2 nsctx)) of
                 None \<Rightarrow> None
               | Some (Some e, s3) \<Rightarrow> Some (Some e, s3)
               | Some (None, p3, h3) \<Rightarrow> Some (None, closeTag p3 ''a'', h3))))
    \<and> (prefix p = [] \<and> indent p = [] \<longrightarrow>
          openTag p ''a'' = p\<lparr>out := out p @ ''<a>''\<rparr> \<and> closeTag p ''a'' = p\<lparr>out := out p @ ''</a>''\<rparr>)
    \<and> (\<forall>f vf ty stk q. fflags f \<inter> fMode = {fElement} \<or> fflags f \<inter> fMode = {fElement, fAny} \<longrightarrow>
          fieldStep esc f vf ty stk q =
            (let k = splitLen (fparents f) stk;
                 q1 = foldl closeTag q (rev (drop k stk))
             in if k < length (fparents f) \<and> (Kind vf \<noteq> Ptr \<and> Kind vf \<noteq> Interface \<or> \<not> IsNil vf)
                then Descend (fparents f) (foldl openTag q1 (drop k (fparents f)))
                else Descend (take k (fparents f)) q1))
    \<and> (\<forall>ps stk. splitLen ps stk \<le> length ps \<and> splitLen ps stk \<le> length stk
          \<and> take (splitLen ps stk) ps = take (splitLen ps stk) stk
          \<and> (splitLen ps stk < length ps \<and> splitLen ps stk < length stk \<longrightarrow>
               ps ! splitLen ps stk \<noteq> stk ! splitLen ps stk))
    \<and> (\<forall>stk q g. marshalFields gti esc [] val nsctx stk (q, g) = Some (None, foldl closeTag q (rev stk), g))"
proof -
  have na: "fAttr \<notin> fflags f1" "fAttr \<notin> fflags f2" "fAttr \<notin> fflags f3"
    using assms(3,4,5) by (auto simp: fMode_def)
  have s1: "fieldStep esc f1 v1 ty [] q = Descend [''a''] (openTag q ''a'')" for ty q
    using assms(3,6,12) by (subst fieldStep_element) (auto simp: Let_def)
  have s2: "fieldStep esc f2 v2 ty [''a''] q = Descend [''a''] q" for ty q
    using assms(4,7) by (subst fieldStep_element) (auto simp: Let_def)
  have s3: "fieldStep esc f3 v3 ty [''a''] q = Descend [''a''] q" for ty q
    using assms(5,8) by (subst fieldStep_element) (auto simp: Let_def)
  have fin: "marshalFields gti esc [] val nsctx stk (q, g) = Some (None, foldl closeTag q (rev stk), g)"
    for stk q g
    by (simp add: marshalFields.simps trim_def cachedWriteError_def)
  have a: "marshalStruct gti esc tinfo val nsctx (p, h) =
      (case marshalValue gti esc v1 (Some f1) (snd (child h nsctx)) (openTag p ''a'', fst (child h nsctx)) of
         None \<Rightarrow> None
       | Some (Some e, s1) \<Rightarrow> Some (Some e, s1)
       | Some (None, p1, h1) \<Rightarrow>
          (case marshalValue gti esc v2 (Some f2) (snd (child h1 nsctx)) (p1, fst (child h1 nsctx)) of
             None \<Rightarrow> None
           | Some (Some e, s2) \<Rightarrow> Some (Some e, s2)
           | Some (None, p2, h2) \<Rightarrow>
              (case marshalValue gti esc v3 (Some f3) (snd (child h2 nsctx)) (p2, fst (child h2 nsctx)) of
                 None \<Rightarrow> None
               | Some (Some e, s3) \<Rightarrow> Some (Some e, s3)
               | Some (None, p3, h3) \<Rightarrow> Some (None, closeTag p3 ''a'', h3))))"
    using assms(1,2,9,10,11) na
    by (simp add: marshalStruct.simps marshalFields.simps(2) s1 s2 s3 fin
        split: option.splits prod.splits)
  have b: "prefix p = [] \<and> indent p = [] \<longrightarrow>
          openTag p ''a'' = p\<lparr>out := out p @ ''<a>''\<rparr> \<and> closeTag p ''a'' = p\<lparr>out := out p @ ''</a>''\<rparr>"
    by (simp add: openTag_def closeTag_def writeIndent_def WriteString_def WriteByte_def)
  from a b fieldStep_element splitLen_spec fin show ?thesis by blast
qed

theorem shared_parent_path_witness:
  "map_option (\<lambda>r. (fst r, out (fst (snd r))))
     (marshalStruct exProvider escapeText
        \<lparr>xmlname = None,
         tfields = [exField 0 ''b'' {fElement} [''a''], exField 1 ''b'' {fElement} [''a''],
                    exField 2 ''c'' {fElement} [''a'']]\<rparr>
        (VStruct ''Path'' [VString ''string'' ''x'', VString ''string'' ''y'', VString ''string'' ''z''])
        1 (exPrinter, exHeap))
   = Some (None, ''<a><b>x</b><b>y</b><c>z</c></a>'')"
proof -
  let ?f1 = "exField 0 ''b'' {fElement} [''a'']"
  let ?f2 = "exField 1 ''b'' {fElement} [''a'']"
  let ?f3 = "exField 2 ''c'' {fElement} [''a'']"
  let ?ti = "\<lparr>xmlname = None, tfields = [?f1, ?f2, ?f3]\<rparr>"
  let ?v = "VStruct ''Path'' [VString ''string'' ''x'', VString ''string'' ''y'', VString ''string'' ''z'']"
  have t: "\<not> isTime ?v" by simp
  have tf: "tfields ?ti = [?f1, ?f2, ?f3]" by simp
  have m: "fflags ?f1 \<inter> fMode = {fElement}" "fflags ?f2 \<inter> fMode = {fElement}"
    "fflags ?f3 \<inter> fMode = {fElement}"
    by (auto simp: exField_def fMode_def)
  have ps: "fparents ?f1 = [''a'']" "fparents ?f2 = [''a'']" "fparents ?f3 = [''a'']"
    by (simp_all add: exField_def)
  have vs: "fvalue ?f1 ?v = Inr (VString ''string'' ''x'')" "fvalue ?f2 ?v = Inr (VString ''string'' ''y'')"
    "fvalue ?f3 ?v = Inr (VString ''string'' ''z'')"
    by (simp_all add: exField_def fvalue_def)
  have nn: "Kind (VString ''string'' ''x'') \<noteq> Ptr \<and> Kind (VString ''string'' ''x'') \<noteq> Interface
      \<or> \<not> IsNil (VString ''string'' ''x'')" by simp
  note e = conjunct1[OF shared_parent_path[OF t tf m ps vs nn, of exProvider escapeText 1 exPrinter exHeap]]
  show ?thesis
    unfolding e
    by (simp add: exProvider_def exField_def exPrinter_def exHeap_def escapeText_def
      escapeChar_def child_def rootNs2Pfx_def openElement_def elementName_def startTag_def endTag_def
      writePfx_def set_xmlns_def bind_def xmlnameOf_def WriteString_def WriteByte_def Escape_def
      cachedWriteError_def writeIndent_def openTag_def closeTag_def
      Type_def IsValid_def XML_NS_def XMLNS_NS_def marshalValue.simps Get.simps)
qed

section \<open>What a run does to the printer and the store\<close>

subsection \<open>Printers\<close>

lemma pext_refl [simp]: "pext p p"
  by (simp add: pext_def)

lemma pext_trans: "pext p p1 \<Longrightarrow> pext p1 p2 \<Longrightarrow> pext p p2"
  by (auto simp: pext_def)

lemma funpow_WriteString: "(WriteString s ^^ k) q = q\<lparr>out := out q @ concat (replicate k s)\<rparr>"
proof (induction k)
  case 0
  show ?case by simp
next
  case (Suc k)
  have "concat (replicate k s) @ s = s @ concat (replicate k s)"
    by (induction k) simp_all
  with Suc show ?case by (simp add: WriteString_def)
qed

lemma pext_WS: "pext p q \<Longrightarrow> pext p (WriteString s q)"
  by (erule pext_trans) (simp add: pext_def WriteString_def)

lemma pext_WB: "pext p q \<Longrightarrow> pext p (WriteByte c q)"
  by (erule pext_trans) (simp add: pext_def WriteByte_def)

lemma pext_Esc: "pext p q \<Longrightarrow> pext p (Escape esc s q)"
  by (simp add: Escape_def pext_WS)

lemma pext_WI: "pext p q \<Longrightarrow> pext p (writeIndent d q)"
  by (erule pext_trans)
    (simp add: writeIndent_def Let_def pext_def WriteString_def WriteByte_def funpow_WriteString)

lemma pext_Pfx: "pext p q \<Longrightarrow> pext p (writePfx a b q)"
  by (simp add: writePfx_def pext_WS pext_WB)

lemma pext_open: "pext p q \<Longrightarrow> pext p (openTag q s)"
  by (simp add: openTag_def pext_WS pext_WB pext_WI)

lemma pext_close: "pext p q \<Longrightarrow> pext p (closeTag q s)"
  by (simp add: closeTag_def pext_WS pext_WB pext_WI)

lemma pext_foldl_close: "pext p q \<Longrightarrow> pext p (foldl closeTag q xs)"
  by (induction xs arbitrary: q) (simp_all add: pext_close)

lemma pext_foldl_open: "pext p q \<Longrightarrow> pext p (foldl openTag q xs)"
  by (induction xs arbitrary: q) (simp_all add: pext_open)

lemma pext_end: "pext p q \<Longrightarrow> pext p (endTag a b n q)"
  by (simp add: endTag_def pext_WS pext_WB pext_WI pext_Pfx)

lemma pext_charData: "pext p q \<Longrightarrow> pext p (charData esc v q)"
  by (induction esc v q rule: charData.induct) (simp_all add: pext_Esc)

lemmas pext_intros = pext_WS pext_WB pext_Esc pext_WI pext_Pfx pext_open pext_close
  pext_foldl_close pext_foldl_open pext_end pext_charData


lemma pext_push: "pext p q \<Longrightarrow> pext p (snd (push ps (stk, q)))"
  by (simp add: push_def pext_intros)




subsection \<open>Stores\<close>

lemma length_set_xmlns [simp]: "length (set_xmlns n u h) = length h"
  by (simp add: set_xmlns_def)

lemma length_bind [simp]: "length (bind n u pfx h) = length h"
  by (simp add: bind_def)

lemma nth_set_xmlns [simp]:
  "parent (set_xmlns n u h ! m) = parent (h ! m)"
  "pfxmap (set_xmlns n u h ! m) = pfxmap (h ! m)"
  "m \<noteq> n \<Longrightarrow> set_xmlns n u h ! m = h ! m"
  "n < length h \<Longrightarrow> xmlns (set_xmlns n u h ! n) = u"
proof -
  show "parent (set_xmlns n u h ! m) = parent (h ! m)"
    by (cases "n < length h") (simp_all add: set_xmlns_def nth_list_update list_update_beyond not_less)
  show "pfxmap (set_xmlns n u h ! m) = pfxmap (h ! m)"
    by (cases "n < length h") (simp_all add: set_xmlns_def nth_list_update list_update_beyond not_less)
  show "m \<noteq> n \<Longrightarrow> set_xmlns n u h ! m = h ! m"
    by (simp add: set_xmlns_def)
  show "n < length h \<Longrightarrow> xmlns (set_xmlns n u h ! n) = u"
    by (simp add: set_xmlns_def)
qed

lemma nth_bind [simp]:
  "parent (bind n u pfx h ! m) = parent (h ! m)"
  "xmlns (bind n u pfx h ! m) = xmlns (h ! m)"
  "m \<noteq> n \<Longrightarrow> bind n u pfx h ! m = h ! m"
  "n < length h \<Longrightarrow> pfxmap (bind n u pfx h ! n) = (pfxmap (h ! n))(u \<mapsto> pfx)"
proof -
  show "parent (bind n u pfx h ! m) = parent (h ! m)"
    by (cases "n < length h") (simp_all add: bind_def nth_list_update list_update_beyond not_less)
  show "xmlns (bind n u pfx h ! m) = xmlns (h ! m)"
    by (cases "n < length h") (simp_all add: bind_def nth_list_update list_update_beyond not_less)
  show "m \<noteq> n \<Longrightarrow> bind n u pfx h ! m = h ! m"
    by (simp add: bind_def)
  show "n < length h \<Longrightarrow> pfxmap (bind n u pfx h ! n) = (pfxmap (h ! n))(u \<mapsto> pfx)"
    by (simp add: bind_def)
qed




lemma child_simps [simp]: "snd (child h n) = length h" "length (fst (child h n)) = Suc (length h)"
  by (simp_all add: child_def)

lemma grows_refl [simp]: "grows n h h"
  by (simp add: grows_def)
















subsection \<open>The steps before the body of an element\<close>








subsection \<open>The recursive functions return, on a well-formed store\<close>






section \<open>Namespace declarations\<close>









section \<open>Independence of the output already written and of the addresses\<close>

subsection \<open>The printer operations commute with \<open>shift\<close>\<close>

lemma shift_fields [simp]:
  "prefix (shift pre p) = prefix p" "indent (shift pre p) = indent p" "depth (shift pre p) = depth p"
  "indentedIn (shift pre p) = indentedIn p" "putNewline (shift pre p) = putNewline p"
  "out (shift pre p) = pre @ out p"
  by (simp_all add: shift_def)

lemma shift_WriteString: "WriteString s (shift pre p) = shift pre (WriteString s p)"
  by (simp add: shift_def WriteString_def)

lemma shift_WriteByte: "WriteByte c (shift pre p) = shift pre (WriteByte c p)"
  by (simp add: shift_def WriteByte_def)

lemma shift_Escape: "Escape esc s (shift pre p) = shift pre (Escape esc s p)"
  by (simp add: Escape_def shift_WriteString)

lemma shift_writeIndent: "writeIndent d (shift pre p) = shift pre (writeIndent d p)"
  by (simp add: writeIndent_def Let_def shift_def WriteString_def WriteByte_def funpow_WriteString)

lemma shift_writePfx: "writePfx a b (shift pre p) = shift pre (writePfx a b p)"
  by (simp add: writePfx_def shift_WriteString shift_WriteByte)

lemma shift_openTag: "openTag (shift pre p) s = shift pre (openTag p s)"
  by (simp add: openTag_def shift_WriteString shift_WriteByte shift_writeIndent)

lemma shift_closeTag: "closeTag (shift pre p) s = shift pre (closeTag p s)"
  by (simp add: closeTag_def shift_WriteString shift_WriteByte shift_writeIndent)

lemma shift_foldl_openTag: "foldl openTag (shift pre p) xs = shift pre (foldl openTag p xs)"
  by (induction xs arbitrary: p) (simp_all add: shift_openTag)

lemma shift_foldl_closeTag: "foldl closeTag (shift pre p) xs = shift pre (foldl closeTag p xs)"
  by (induction xs arbitrary: p) (simp_all add: shift_closeTag)

lemma shift_endTag: "endTag a b n (shift pre p) = shift pre (endTag a b n p)"
  by (simp add: endTag_def shift_WriteString shift_WriteByte shift_writeIndent shift_writePfx)

lemma shift_charData: "charData esc v (shift pre p) = shift pre (charData esc v p)"
  by (induction esc v p rule: charData.induct) (simp_all add: shift_Escape)

lemmas shift_simps = shift_WriteString shift_WriteByte shift_Escape shift_writeIndent shift_writePfx
  shift_openTag shift_closeTag shift_foldl_openTag shift_foldl_closeTag shift_endTag shift_charData


lemma shift_push: "push ps (stk, shift pre p) = (fst (push ps (stk, p)), shift pre (snd (push ps (stk, p))))"
  by (simp add: push_def shift_simps)




subsection \<open>Contexts that resolve every namespace alike\<close>


lemma geq_Get: "geq h1 n1 h2 n2 \<Longrightarrow> Get h1 n1 k = Get h2 n2 k"
  by (simp add: geq_def)












subsection \<open>The recursive functions do not depend on addresses nor on earlier output\<close>







end
